theory Spec2Isabelle
  imports Main "HOL-Library.Word" "HOL-Library.AList"
begin

text \<open>
  A shallow embedding of \<open>hack/dnsmasq/nxos.py\<close>, the power-on provisioning script for
  NX-OS switches: the path translator, the password hash utility, and \<open>main\<close> with the
  functions it calls, as state-passing programs over the files of the device and a trace
  of the effects of a run. The definitions come first, the properties after them.
\<close>

section \<open>Python string primitives used by \<open>nxos.py\<close>\<close>

text \<open>
  A Python \<open>str\<close> is modelled as a \<open>string\<close> (the list of its UTF-8 bytes). The functions
  below are the string methods the script calls, written from their documented behaviour.
\<close>

text \<open>\<open>s.split(sep)\<close> for a one-character separator: never returns the empty list.\<close>

fun split_acc :: "char \<Rightarrow> string \<Rightarrow> string \<Rightarrow> string list" where
  "split_acc sep cur [] = [rev cur]"
| "split_acc sep cur (c # cs) =
     (if c = sep then rev cur # split_acc sep [] cs else split_acc sep (c # cur) cs)"

definition split :: "char \<Rightarrow> string \<Rightarrow> string list" where
  "split sep s = split_acc sep [] s"

text \<open>\<open>sep.join(xs)\<close>.\<close>

fun join :: "string \<Rightarrow> string list \<Rightarrow> string" where
  "join sep [] = []"
| "join sep [x] = x"
| "join sep (x # y # ys) = x @ sep @ join sep (y # ys)"

text \<open>\<open>s.replace(c, "")\<close>: every occurrence of the character is removed.\<close>

definition remove_char :: "char \<Rightarrow> string \<Rightarrow> string" where
  "remove_char c s = filter (\<lambda>x. x \<noteq> c) s"

text \<open>\<open>s.rstrip(c)\<close> for a one-character set: all trailing occurrences are removed.\<close>

definition rstrip :: "char \<Rightarrow> string \<Rightarrow> string" where
  "rstrip c s = rev (dropWhile (\<lambda>x. x = c) (rev s))"

text \<open>\<open>os.path.basename(p)\<close>: what follows the last slash.\<close>

definition basename :: "string \<Rightarrow> string" where
  "basename p = rev (takeWhile (\<lambda>x. x \<noteq> CHR ''/'') (rev p))"

section \<open>Exceptions\<close>

text \<open>
  The exceptions the script raises or catches. \<open>SystemExit\<close> is what \<open>exit(n)\<close> raises; it is
  not a subclass of \<open>Exception\<close>, so the handler at the bottom of the script does not catch it.
  \<open>ValueError\<close> is what the path translator raises (the specification calls it
  \<open>InvalidPathError\<close>).
\<close>

datatype exn =
    ChecksumError string
  | RequestException string
  | cmd_exec_error string
  | ValueError string
  | OSError string
  | OtherException string
  | SystemExit nat

section \<open>Path translator\<close>

definition volume_labels :: "string list" where
  "volume_labels = [''bootflash:'', ''flash:'', ''nvram:'', ''usb2:'', ''usb1:'']"

definition to_posix_path :: "string \<Rightarrow> exn + string" where
  "to_posix_path path =
     (case split CHR ''/'' path of
        [] \<Rightarrow> Inl (OtherException ''IndexError'')
      | token0 # tokens \<Rightarrow>
          if token0 \<in> set volume_labels
          then Inr (join ''/''
                     ((CHR ''/'' # remove_char CHR '':'' token0)
                      # filter (\<lambda>token. token \<noteq> []) tokens))
          else Inl (ValueError (''Unknown path type: '' @ path)))"

text \<open>
  A translated path is well formed when it is absolute and, after the root, has at least one
  segment and no empty one: no doubled and no trailing slash.
\<close>

definition no_empty_segments :: "string \<Rightarrow> bool" where
  "no_empty_segments p =
     (case split CHR ''/'' p of
        [] \<Rightarrow> False
      | root # segs \<Rightarrow> root = [] \<and> segs \<noteq> [] \<and> [] \<notin> set segs)"

section \<open>Password hash utility\<close>

text \<open>
  Python \<open>bytes\<close> are lists of 8-bit words; \<open>str.encode()\<close> gives the UTF-8 bytes, which
  are the characters of the model's \<open>string\<close>.
\<close>

type_synonym bytes = "8 word list"

definition encode :: "string \<Rightarrow> bytes" where
  "encode s = map of_char s"

text \<open>The two alphabets and the translation table of the script.\<close>

definition std_b64chars :: string where
  "std_b64chars = ''ABCDEFGHIJKLMNOPQRSTUVWXYZabcdefghijklmnopqrstuvwxyz0123456789+/''"

definition cisco_b64chars :: string where
  "cisco_b64chars = ''./0123456789ABCDEFGHIJKLMNOPQRSTUVWXYZabcdefghijklmnopqrstuvwxyz''"

text \<open>
  \<open>base64.b64encode\<close> of the standard library, written from RFC 4648: three bytes give four
  characters of the standard alphabet, and a last group of one or two bytes is padded with
  \<open>=\<close> to four characters.
\<close>

definition b64char :: "nat \<Rightarrow> char" where
  "b64char i = std_b64chars ! i"

fun b64encode :: "bytes \<Rightarrow> string" where
  "b64encode [] = []"
| "b64encode [a] =
     (let n = unat a * 65536 in
      [b64char (n div 262144), b64char (n div 4096 mod 64), CHR ''='', CHR ''=''])"
| "b64encode [a, b] =
     (let n = unat a * 65536 + unat b * 256 in
      [b64char (n div 262144), b64char (n div 4096 mod 64), b64char (n div 64 mod 64), CHR ''=''])"
| "b64encode (a # b # c # rest) =
     (let n = unat a * 65536 + unat b * 256 + unat c in
      [b64char (n div 262144), b64char (n div 4096 mod 64), b64char (n div 64 mod 64),
       b64char (n mod 64)] @ b64encode rest)"

text \<open>
  \<open>str.maketrans(x, y)\<close> builds a dictionary from the characters of \<open>x\<close> to those of \<open>y\<close>
  (a later pair overrides an earlier one); \<open>str.translate\<close> replaces the characters the
  dictionary knows and keeps the others.
\<close>

definition maketrans :: "string \<Rightarrow> string \<Rightarrow> (char \<rightharpoonup> char)" where
  "maketrans x y = map_of (rev (zip x y))"

definition translate :: "(char \<rightharpoonup> char) \<Rightarrow> string \<Rightarrow> string" where
  "translate table s = map (\<lambda>c. case table c of None \<Rightarrow> c | Some c' \<Rightarrow> c') s"

definition b64table :: "char \<rightharpoonup> char" where
  "b64table = maketrans std_b64chars cisco_b64chars"

definition to_cisco_base64 :: "bytes \<Rightarrow> string" where
  "to_cisco_base64 data = rstrip CHR ''='' (translate b64table (b64encode data))"

text \<open>
  \<open>hashlib.pbkdf2_hmac\<close> and \<open>os.urandom\<close> belong to the standard library; they are
  parameters of the model: \<open>pbkdf2_hmac name password salt iterations\<close> is the derived key
  and \<open>urandom n\<close> the bytes the random source hands out in this call. The salt argument is
  optional (\<open>None\<close> by default), and \<open>not salt_bytes\<close> holds for \<open>None\<close> and for \<open>b""\<close>.
\<close>

definition generate_type8_password ::
  "(string \<Rightarrow> bytes \<Rightarrow> bytes \<Rightarrow> nat \<Rightarrow> bytes) \<Rightarrow> (nat \<Rightarrow> bytes) \<Rightarrow> string \<Rightarrow> bytes option \<Rightarrow> string" where
  "generate_type8_password pbkdf2_hmac urandom password salt_bytes =
     (let salt = (case salt_bytes of
                    None \<Rightarrow> urandom 10
                  | Some s \<Rightarrow> if s = [] then urandom 10 else s);
          dk = pbkdf2_hmac ''sha256'' (encode password) salt 20000
      in ''$nx-pbkdf2$'' @ to_cisco_base64 salt @ ''$'' @ to_cisco_base64 dk)"

text \<open>
  The same derivation in the specification's words: each character of the standard alphabet
  is replaced by the character at the same position of the vendor alphabet, trailing padding
  is stripped, and the two encodings are rendered after the \<open>$nx-pbkdf2$\<close> tag.
\<close>

definition spec_remap :: "char \<Rightarrow> char" where
  "spec_remap c =
     (if c \<in> set std_b64chars
      then cisco_b64chars ! length (takeWhile (\<lambda>x. x \<noteq> c) std_b64chars)
      else c)"

definition spec_encode :: "bytes \<Rightarrow> string" where
  "spec_encode data = rstrip CHR ''='' (map spec_remap (b64encode data))"

definition spec_derive ::
  "(string \<Rightarrow> bytes \<Rightarrow> bytes \<Rightarrow> nat \<Rightarrow> bytes) \<Rightarrow> string \<Rightarrow> bytes \<Rightarrow> string" where
  "spec_derive pbkdf2_hmac password salt =
     ''$nx-pbkdf2$'' @ spec_encode salt @ ''$''
       @ spec_encode (pbkdf2_hmac ''sha256'' (encode password) salt 20000)"

text \<open>A key derivation function that returns 32 zero bytes, for the concrete examples.\<close>

definition zero_kdf :: "string \<Rightarrow> bytes \<Rightarrow> bytes \<Rightarrow> nat \<Rightarrow> bytes" where
  "zero_kdf h p s n = replicate 32 0"

section \<open>Data of a provisioning run\<close>

text \<open>
  The dictionaries the script reads, with the keys it uses: the \<open>image\<close> part of the
  bootstrap descriptor, the descriptor itself (\<open>image\<close> and \<open>config.lines\<close>), the answer of
  \<open>show version\<close>, and the dictionary \<open>get_booted_image\<close> builds (\<open>version\<close> and \<open>path\<close> of
  the running image). Decoding JSON is outside the model: the collaborators hand over
  well-formed values or raise.
\<close>

record image_conf =
  version :: string
  url :: string
  md5sum :: string

record bootstrap =
  bs_image :: image_conf
  bs_config_lines :: "string list"

record show_version =
  nxos_ver_str :: string
  nxos_file_name :: string
  proc_board_id :: string

record running_image =
  running_version :: string
  running_path :: string

definition LOCAL_IMAGE_DIR :: string where
  "LOCAL_IMAGE_DIR = ''bootflash:///''"

section \<open>Effects\<close>

text \<open>
  Every \<open>LOG\<close> call of the script is one message constructor, holding the values the
  message interpolates:
  \<^item> \<open>FreeSpace\<close>: "Free space on /bootflash: ... bytes";
  \<^item> \<open>BootstrapData\<close>: "Bootstrap data: ..."; \<open>BootstrapFailed\<close>: "Failed to fetch
    bootstrap data: ...";
  \<^item> \<open>BootedImage\<close>: "Currently booted image: ...";
  \<^item> \<open>FoundBinFiles\<close>, \<open>SkippingTarget\<close>, \<open>SkippingRunning\<close>, \<open>RemovingFile\<close>,
    \<open>RemoveFailed\<close>: the five messages of \<open>clean_old_images\<close>;
  \<^item> \<open>Downloading\<close>, \<open>Downloaded\<close> (bytes written so far; the transfer rate is not
    modelled), \<open>AlreadyExists\<close>, \<open>Md5Matches\<close>: the messages of \<open>download_image\<close>;
  \<^item> \<open>Raised\<close>: \<open>LOG.error(e)\<close>; \<open>DeletingTarget\<close>: "Deleting target image ... due to
    checksum error."; \<open>DownloadFailed\<close>: "Failed to download image: ...";
  \<^item> \<open>SettingBootImage\<close>: "Setting boot image to: ..."; \<open>CopyingConfig\<close>: "Copying
    running-config to startup-config."; \<open>StartupImageSet\<close>: "Startup image set to: ...";
    \<open>BootImageAlreadySet\<close>: "Boot image is already set to the target image, skipping boot
    configuration.";
  \<^item> \<open>ConfiguringDevice\<close>, \<open>CopiedConfig\<close>, \<open>CopyFailed\<close>, \<open>StartupConfiguration\<close>,
    \<open>NoStartupConfiguration\<close> ("No startup configuration found, maybe we need a reboot?"),
    \<open>ShowStartupFailed\<close> ("Error showing startup-config: ..."), \<open>Completed\<close>;
  \<^item> \<open>Uncaught\<close>: "An uncaught error occurred: ...".
\<close>

datatype level = INFO | WARNING | ERROR

datatype log_msg =
    FreeSpace nat
  | BootstrapData bootstrap
  | BootstrapFailed exn
  | BootedImage running_image
  | FoundBinFiles "string list"
  | SkippingTarget string
  | SkippingRunning string
  | RemovingFile string
  | RemoveFailed string exn
  | Downloading string string
  | Downloaded nat
  | AlreadyExists string
  | Md5Matches string
  | Raised exn
  | DeletingTarget string
  | DownloadFailed exn
  | SettingBootImage string
  | CopyingConfig
  | StartupImageSet string
  | BootImageAlreadySet
  | ConfiguringDevice
  | CopiedConfig
  | CopyFailed exn
  | StartupConfiguration string
  | NoStartupConfiguration
  | ShowStartupFailed exn
  | Completed
  | Uncaught exn

text \<open>
  What a run does to the outside, in order: a log record, the GET of the bootstrap
  descriptor (with the serial number), a GET of an image URL, a file removed by
  \<open>os.remove\<close>, a command handed to the device (\<open>cli\<close> or \<open>clid\<close>).
\<close>

datatype event =
    Log level log_msg
  | BootstrapGet string
  | ImageGet string
  | OsRemove string
  | Cli string

text \<open>
  The answer to the GET of an image: \<open>requests.get\<close> or \<open>raise_for_status\<close> raises, or
  the body arrives in chunks, after which the stream may break.
\<close>

datatype http_response = HttpError string | HttpBody "bytes list" "string option"

text \<open>
  The collaborators of the script. The device and the image server may answer each call
  differently: their answers depend on the number of commands, respectively of image GETs,
  issued before. The checksum the device reports for \<open>show file ... md5sum\<close> is a function
  of the files on the flash and of the path. \<open>remove_error\<close> gives the error, if any, with
  which \<open>os.remove\<close> refuses to delete an existing file.
\<close>

record env =
  free_space :: nat
  show_version_reply :: "nat \<Rightarrow> exn + show_version"
  bootstrap_reply :: "string \<Rightarrow> exn + bootstrap"
  http_reply :: "nat \<Rightarrow> string \<Rightarrow> http_response"
  file_md5sum :: "(string \<times> bytes) list \<Rightarrow> string \<Rightarrow> exn + string"
  show_boot_reply :: "nat \<Rightarrow> exn + string"
  cli_reply :: "nat \<Rightarrow> string \<Rightarrow> exn + string"
  remove_error :: "string \<Rightarrow> string option"

text \<open>
  The state a run changes: the files of the device (POSIX path and content) and the events
  so far.
\<close>

record world =
  files :: "(string \<times> bytes) list"
  trace :: "event list"

text \<open>A statement either returns a value or raises, and leaves a new state.\<close>

type_synonym 'a prog = "world \<Rightarrow> (exn + 'a) \<times> world"

definition returns :: "'a \<Rightarrow> 'a prog" where
  "returns x w = (Inr x, w)"

definition raise :: "exn \<Rightarrow> 'a prog" where
  "raise e w = (Inl e, w)"

definition lift :: "exn + 'a \<Rightarrow> 'a prog" where
  "lift r w = (r, w)"

definition and_then :: "'a prog \<Rightarrow> ('a \<Rightarrow> 'b prog) \<Rightarrow> 'b prog" where
  "and_then m f w = (case m w of (Inl e, w') \<Rightarrow> (Inl e, w') | (Inr x, w') \<Rightarrow> f x w')"

text \<open>
  \<open>try: m except ... as e: handler e\<close>. A handler re-raises what its \<open>except\<close> clauses do
  not name; what a handler itself raises is not handled again.
\<close>

definition try_except :: "'a prog \<Rightarrow> (exn \<Rightarrow> 'a prog) \<Rightarrow> 'a prog" where
  "try_except m handler w =
     (case m w of (Inl e, w') \<Rightarrow> handler e w' | (Inr x, w') \<Rightarrow> (Inr x, w'))"

definition emit :: "event \<Rightarrow> unit prog" where
  "emit ev w = (Inr (), w\<lparr>trace := trace w @ [ev]\<rparr>)"

definition log :: "level \<Rightarrow> log_msg \<Rightarrow> unit prog" where
  "log l m = emit (Log l m)"

fun is_cli :: "event \<Rightarrow> bool" where
  "is_cli (Cli c) = True"
| "is_cli _ = False"

fun is_image_get :: "event \<Rightarrow> bool" where
  "is_image_get (ImageGet u) = True"
| "is_image_get _ = False"

definition cli_count :: "world \<Rightarrow> nat" where
  "cli_count w = length (filter is_cli (trace w))"

definition get_count :: "world \<Rightarrow> nat" where
  "get_count w = length (filter is_image_get (trace w))"

text \<open>
  \<open>cli(command)\<close>, and \<open>cli_json(command)\<close> for the three commands whose answer the script
  reads as a dictionary.
\<close>

definition cli :: "env \<Rightarrow> string \<Rightarrow> string prog" where
  "cli env command w =
     (cli_reply env (cli_count w) command, w\<lparr>trace := trace w @ [Cli command]\<rparr>)"

definition cli_json_show_version :: "env \<Rightarrow> show_version prog" where
  "cli_json_show_version env w =
     (show_version_reply env (cli_count w), w\<lparr>trace := trace w @ [Cli ''show version'']\<rparr>)"

definition cli_json_file_md5sum :: "env \<Rightarrow> string \<Rightarrow> string prog" where
  "cli_json_file_md5sum env path w =
     (file_md5sum env (files w) path,
      w\<lparr>trace := trace w @ [Cli (''show file '' @ path @ '' md5sum'')]\<rparr>)"

definition cli_json_show_boot :: "env \<Rightarrow> string prog" where
  "cli_json_show_boot env w =
     (show_boot_reply env (cli_count w), w\<lparr>trace := trace w @ [Cli ''show boot'']\<rparr>)"

definition requests_get :: "env \<Rightarrow> string \<Rightarrow> http_response prog" where
  "requests_get env u w =
     (Inr (http_reply env (get_count w) u), w\<lparr>trace := trace w @ [ImageGet u]\<rparr>)"

text \<open>The file operations: \<open>os.path.exists\<close>, \<open>os.remove\<close>, \<open>open(p, "wb")\<close>, \<open>f.write\<close>.\<close>

definition os_path_exists :: "string \<Rightarrow> bool prog" where
  "os_path_exists p w = (Inr (map_of (files w) p \<noteq> None), w)"

definition os_remove :: "env \<Rightarrow> string \<Rightarrow> unit prog" where
  "os_remove env p w =
     (case map_of (files w) p of
        None \<Rightarrow> (Inl (OSError (''No such file or directory: '' @ p)), w)
      | Some content \<Rightarrow>
          (case remove_error env p of
             Some msg \<Rightarrow> (Inl (OSError msg), w)
           | None \<Rightarrow>
               (Inr (), w\<lparr>files := AList.delete p (files w), trace := trace w @ [OsRemove p]\<rparr>)))"

definition open_wb :: "string \<Rightarrow> unit prog" where
  "open_wb p w = (Inr (), w\<lparr>files := AList.update p [] (files w)\<rparr>)"

definition file_write :: "string \<Rightarrow> bytes \<Rightarrow> unit prog" where
  "file_write p data w =
     (Inr (),
      w\<lparr>files := AList.update p
                    ((case map_of (files w) p of None \<Rightarrow> [] | Some content \<Rightarrow> content) @ data)
                    (files w)\<rparr>)"

text \<open>
  \<open>glob.glob("/bootflash/*.bin", recursive=False)\<close>: the files directly under
  \<open>/bootflash/\<close> whose name ends in \<open>.bin\<close> and does not start with a dot.
\<close>

definition is_bootflash_bin :: "string \<Rightarrow> bool" where
  "is_bootflash_bin p =
     (let name = drop 11 p in
      take 11 p = ''/bootflash/'' \<and> CHR ''/'' \<notin> set name \<and> 4 \<le> length name
        \<and> take 1 name \<noteq> ''.'' \<and> drop (length name - 4) name = ''.bin'')"

definition glob_bootflash_bin :: "string list prog" where
  "glob_bootflash_bin w = (Inr (filter is_bootflash_bin (map fst (files w))), w)"

section \<open>The functions of the script\<close>

definition get_bootstrap_data :: "env \<Rightarrow> string \<Rightarrow> bootstrap prog" where
  "get_bootstrap_data env serial w =
     (bootstrap_reply env serial, w\<lparr>trace := trace w @ [BootstrapGet serial]\<rparr>)"

definition get_booted_image :: "env \<Rightarrow> running_image prog" where
  "get_booted_image env =
     and_then (cli_json_show_version env) (\<lambda>show_version.
     returns \<lparr>running_version = nxos_ver_str show_version,
              running_path = nxos_file_name show_version\<rparr>)"

text \<open>The loop of \<open>clean_old_images\<close> over the files found, and the function.\<close>

fun clean_loop :: "env \<Rightarrow> string \<Rightarrow> string \<Rightarrow> string list \<Rightarrow> unit prog" where
  "clean_loop env running_image_path target_image_path [] = returns ()"
| "clean_loop env running_image_path target_image_path (bin_file # bin_files) =
     and_then
       (if bin_file = target_image_path then log INFO (SkippingTarget bin_file)
        else if bin_file = running_image_path then log INFO (SkippingRunning bin_file)
        else try_except
               (and_then (log INFO (RemovingFile bin_file)) (\<lambda>_. os_remove env bin_file))
               (\<lambda>e. case e of
                      OSError msg \<Rightarrow> log ERROR (RemoveFailed bin_file e)
                    | _ \<Rightarrow> raise e))
       (\<lambda>_. clean_loop env running_image_path target_image_path bin_files)"

definition clean_old_images :: "env \<Rightarrow> string \<Rightarrow> string \<Rightarrow> unit prog" where
  "clean_old_images env running_image_path target_image_path =
     and_then glob_bootflash_bin (\<lambda>bin_files.
     and_then (log INFO (FoundBinFiles bin_files)) (\<lambda>_.
     clean_loop env running_image_path target_image_path bin_files))"

text \<open>
  The loop of \<open>download_image\<close> over the chunks of the body (\<open>written\<close> counts the bytes),
  and the function: the transfer is skipped when the file exists, then the checksum the
  device reports is compared with the expected one.
\<close>

fun write_chunks :: "string \<Rightarrow> nat \<Rightarrow> bytes list \<Rightarrow> unit prog" where
  "write_chunks p written [] = returns ()"
| "write_chunks p written (data # chunks) =
     and_then (file_write p data) (\<lambda>_.
     and_then (log INFO (Downloaded (written + length data))) (\<lambda>_.
     write_chunks p (written + length data) chunks))"

definition download_image :: "env \<Rightarrow> image_conf \<Rightarrow> string \<Rightarrow> unit prog" where
  "download_image env image_conf target_image_path =
     and_then (lift (to_posix_path target_image_path)) (\<lambda>posix_path.
     and_then (os_path_exists posix_path) (\<lambda>exists.
     and_then
       (if \<not> exists then
          and_then (log INFO (Downloading (url image_conf) target_image_path)) (\<lambda>_.
          and_then (requests_get env (url image_conf)) (\<lambda>response.
          case response of
            HttpError msg \<Rightarrow> raise (RequestException msg)
          | HttpBody chunks failure \<Rightarrow>
              and_then (open_wb posix_path) (\<lambda>_.
              and_then (write_chunks posix_path 0 chunks) (\<lambda>_.
              case failure of
                None \<Rightarrow> returns ()
              | Some msg \<Rightarrow> raise (RequestException msg)))))
        else log INFO (AlreadyExists target_image_path))
       (\<lambda>_.
     and_then (cli_json_file_md5sum env target_image_path) (\<lambda>md5.
     if md5 \<noteq> md5sum image_conf
     then raise (ChecksumError (''MD5 checksum mismatch for '' @ target_image_path
                   @ ''. Expected '' @ md5sum image_conf @ '', got '' @ md5))
     else log INFO (Md5Matches target_image_path)))))"

definition configure :: "env \<Rightarrow> string list \<Rightarrow> unit prog" where
  "configure env config_lines =
     and_then (cli env (''configure terminal ; '' @ join '' ; '' config_lines @ '' ; end''))
       (\<lambda>_. returns ())"

text \<open>\<open>needle in haystack\<close> on strings.\<close>

fun contains :: "string \<Rightarrow> string \<Rightarrow> bool" where
  "contains needle [] = (needle = [])"
| "contains needle (c # cs) =
     (take (length needle) (c # cs) = needle \<or> contains needle cs)"

section \<open>\<open>main\<close>, block by block\<close>

text \<open>
  \<open>main\<close> is the sequence of six blocks. \<open>main_prepare\<close> is the script up to the call of
  \<open>clean_old_images\<close>: it returns the descriptor, the running image and the target path.
  Setting up the log handlers and the signal handler is not modelled.
\<close>

definition main_prepare :: "env \<Rightarrow> (bootstrap \<times> running_image \<times> string) prog" where
  "main_prepare env =
     and_then (log INFO (FreeSpace (free_space env))) (\<lambda>_.
     and_then (cli_json_show_version env) (\<lambda>show_version.
     and_then
       (try_except
          (and_then (get_bootstrap_data env (proc_board_id show_version)) (\<lambda>bootstrap.
           and_then (log INFO (BootstrapData bootstrap)) (\<lambda>_.
           returns bootstrap)))
          (\<lambda>e. case e of
                 RequestException msg \<Rightarrow>
                   and_then (log ERROR (BootstrapFailed e)) (\<lambda>_. raise (SystemExit 1))
               | _ \<Rightarrow> raise e))
       (\<lambda>bootstrap.
     and_then (get_booted_image env) (\<lambda>running_image.
     and_then (log INFO (BootedImage running_image)) (\<lambda>_.
     let target_image_path = LOCAL_IMAGE_DIR @ basename (url (bs_image bootstrap)) in
     and_then (lift (to_posix_path (running_path running_image))) (\<lambda>running_posix.
     and_then (lift (to_posix_path target_image_path)) (\<lambda>target_posix.
     and_then (clean_old_images env running_posix target_posix) (\<lambda>_.
     returns (bootstrap, running_image, target_image_path)))))))))"

text \<open>The \<open>try\<close> statement around \<open>download_image\<close>, with the retry in its first handler.\<close>

definition main_image :: "env \<Rightarrow> bootstrap \<Rightarrow> running_image \<Rightarrow> string \<Rightarrow> unit prog" where
  "main_image env bootstrap running_image target_image_path =
     try_except (download_image env (bs_image bootstrap) target_image_path)
       (\<lambda>e. case e of
              ChecksumError msg \<Rightarrow>
                and_then (log ERROR (Raised e)) (\<lambda>_.
                if target_image_path \<noteq> running_path running_image
                then and_then (log WARNING (DeletingTarget target_image_path)) (\<lambda>_.
                     and_then (lift (to_posix_path target_image_path)) (\<lambda>posix_path.
                     and_then (os_remove env posix_path) (\<lambda>_.
                     download_image env (bs_image bootstrap) target_image_path)))
                else returns ())
            | RequestException msg \<Rightarrow>
                and_then (log ERROR (DownloadFailed e)) (\<lambda>_. raise (SystemExit 1))
            | _ \<Rightarrow> raise e)"

text \<open>The \<open>if\<close> statement that sets the boot variable.\<close>

definition main_boot_config :: "env \<Rightarrow> bootstrap \<Rightarrow> running_image \<Rightarrow> string \<Rightarrow> unit prog" where
  "main_boot_config env bootstrap running_image target_image_path =
     (if running_path running_image \<noteq> target_image_path
         \<or> running_version running_image \<noteq> version (bs_image bootstrap)
      then and_then (log INFO (SettingBootImage target_image_path)) (\<lambda>_.
           and_then (configure env [''boot nxos '' @ target_image_path]) (\<lambda>_.
           and_then (log INFO CopyingConfig) (\<lambda>_.
           and_then (cli env ''copy running-config startup-config'') (\<lambda>_.
           and_then (cli_json_show_boot env) (\<lambda>startup_image.
           log INFO (StartupImageSet startup_image))))))
      else log INFO BootImageAlreadySet)"

text \<open>Applying the configuration lines and saving the configuration.\<close>

definition main_configure :: "env \<Rightarrow> bootstrap \<Rightarrow> unit prog" where
  "main_configure env bootstrap =
     and_then (log INFO ConfiguringDevice) (\<lambda>_.
     and_then (configure env (bs_config_lines bootstrap)) (\<lambda>_.
     try_except
       (and_then (cli env ''copy running-config startup-config'') (\<lambda>_.
        log INFO CopiedConfig))
       (\<lambda>e. case e of
              cmd_exec_error msg \<Rightarrow>
                and_then (log ERROR (CopyFailed e)) (\<lambda>_. raise (SystemExit 1))
            | _ \<Rightarrow> raise e)))"

text \<open>Showing the startup configuration.\<close>

definition main_show_startup :: "env \<Rightarrow> unit prog" where
  "main_show_startup env =
     try_except
       (and_then (cli env ''show startup-config'') (\<lambda>startup_config.
        log INFO (StartupConfiguration startup_config)))
       (\<lambda>e. case e of
              cmd_exec_error msg \<Rightarrow>
                if contains ''No startup configuration found'' msg
                then log WARNING NoStartupConfiguration
                else log ERROR (ShowStartupFailed e)
            | _ \<Rightarrow> raise e)"

text \<open>The last two statements.\<close>

definition main_reload :: "env \<Rightarrow> unit prog" where
  "main_reload env =
     and_then (log INFO Completed) (\<lambda>_.
     and_then (cli env ''terminal dont-ask ; reload'') (\<lambda>_. returns ()))"

definition main :: "env \<Rightarrow> unit prog" where
  "main env =
     and_then (main_prepare env) (\<lambda>(bootstrap, running_image, target_image_path).
     and_then (main_image env bootstrap running_image target_image_path) (\<lambda>_.
     and_then (main_boot_config env bootstrap running_image target_image_path) (\<lambda>_.
     and_then (main_configure env bootstrap) (\<lambda>_.
     and_then (main_show_startup env) (\<lambda>_.
     main_reload env)))))"

text \<open>What follows the image block in \<open>main\<close>.\<close>

definition main_configuration :: "env \<Rightarrow> bootstrap \<Rightarrow> running_image \<Rightarrow> string \<Rightarrow> unit prog" where
  "main_configuration env bootstrap running_image target_image_path =
     and_then (main_boot_config env bootstrap running_image target_image_path) (\<lambda>_.
     and_then (main_configure env bootstrap) (\<lambda>_.
     and_then (main_show_startup env) (\<lambda>_.
     main_reload env)))"

text \<open>
  The \<open>__main__\<close> block: the exit code of the process and the final state. \<open>exit(n)\<close> ends
  the process with code \<open>n\<close>; any other exception is logged and the code is 1.
\<close>

definition script :: "env \<Rightarrow> world \<Rightarrow> nat \<times> world" where
  "script env w =
     (case main env w of
        (Inr u, w') \<Rightarrow> (0, w')
      | (Inl (SystemExit code), w') \<Rightarrow> (code, w')
      | (Inl e, w') \<Rightarrow> (1, w'\<lparr>trace := trace w' @ [Log ERROR (Uncaught e)]\<rparr>))"

text \<open>A run starts with the files on the flash and no event.\<close>

definition run :: "env \<Rightarrow> (string \<times> bytes) list \<Rightarrow> nat \<times> world" where
  "run env fs = script env \<lparr>files = fs, trace = []\<rparr>"

section \<open>Notions the properties use\<close>

text \<open>\<open>adds P m\<close>: whatever the state, \<open>m\<close> only appends events, and all of them satisfy \<open>P\<close>.\<close>

definition adds :: "(event \<Rightarrow> bool) \<Rightarrow> 'a prog \<Rightarrow> bool" where
  "adds P m = (\<forall>w. \<exists>evs. trace (snd (m w)) = trace w @ evs \<and> list_all P evs)"

text \<open>
  The reconciliation decision shows in the log: one of two messages follows the test at
  once, and \<open>decision_msg\<close> is the one the test selects.
\<close>

fun is_decision_msg :: "log_msg \<Rightarrow> bool" where
  "is_decision_msg (SettingBootImage target_image_path) = True"
| "is_decision_msg BootImageAlreadySet = True"
| "is_decision_msg _ = False"

fun is_decision :: "event \<Rightarrow> bool" where
  "is_decision (Log l m) = is_decision_msg m"
| "is_decision _ = False"

definition quiet :: "event \<Rightarrow> bool" where
  "quiet e = (\<not> is_decision e \<and> \<not> is_image_get e)"

definition decision_msg :: "bootstrap \<Rightarrow> running_image \<Rightarrow> string \<Rightarrow> log_msg" where
  "decision_msg bootstrap running_image target_image_path =
     (if running_path running_image \<noteq> target_image_path
         \<or> running_version running_image \<noteq> version (bs_image bootstrap)
      then SettingBootImage target_image_path else BootImageAlreadySet)"

text \<open>
  Two orders of decision and downloads in a trace. In the first, nothing is decided or
  fetched after the first decision. In the second, the decision is taken exactly once and
  no decision follows an image GET.
\<close>

definition decided_after_downloads :: "event list \<Rightarrow> bool" where
  "decided_after_downloads tr =
     (case dropWhile (\<lambda>e. \<not> is_decision e) tr of
        [] \<Rightarrow> True
      | d # later \<Rightarrow> list_all (\<lambda>e. \<not> is_decision e \<and> \<not> is_image_get e) later)"

definition decided_once_before_downloads :: "event list \<Rightarrow> bool" where
  "decided_once_before_downloads tr =
     (length (filter is_decision tr) = 1
      \<and> (case dropWhile (\<lambda>e. \<not> is_image_get e) tr of
            [] \<Rightarrow> True
          | g # later \<Rightarrow> list_all (\<lambda>e. \<not> is_decision e) later))"

text \<open>The outcome of the checksum comparison for the files as they are.\<close>

definition verdict :: "env \<Rightarrow> image_conf \<Rightarrow> string \<Rightarrow> (string \<times> bytes) list \<Rightarrow> exn + unit" where
  "verdict env image_conf target_image_path fs =
     (case file_md5sum env fs target_image_path of
        Inl e \<Rightarrow> Inl e
      | Inr md5 \<Rightarrow>
          if md5 \<noteq> md5sum image_conf
          then Inl (ChecksumError (''MD5 checksum mismatch for '' @ target_image_path
                   @ ''. Expected '' @ md5sum image_conf @ '', got '' @ md5))
          else Inr ())"

section \<open>Example environments\<close>

text \<open>
  A descriptor for version 10.4(4) at \<open>https://example.com/nxos.bin\<close>; a device that
  reports the checksum \<open>good\<close> for the content 1, 2, 3 and \<open>bad\<close> for any other; image
  servers that deliver the good content, a corrupt one, or nothing; devices that accept
  every command, or reject the saving or the showing of the startup configuration.
\<close>

definition example_bootstrap :: bootstrap where
  "example_bootstrap =
     \<lparr>bs_image = \<lparr>version = ''10.4(4)'', url = ''https://example.com/nxos.bin'',
                   md5sum = ''good''\<rparr>,
      bs_config_lines = [''hostname sw1'', ''feature nxapi'']\<rparr>"

definition example_md5 :: "(string \<times> bytes) list \<Rightarrow> string \<Rightarrow> exn + string" where
  "example_md5 fs path =
     (case to_posix_path path of
        Inl e \<Rightarrow> Inl e
      | Inr p \<Rightarrow>
          (case map_of fs p of
             None \<Rightarrow> Inl (cmd_exec_error ''No such file or directory'')
           | Some content \<Rightarrow> Inr (if content = [1, 2, 3] then ''good'' else ''bad'')))"

definition example_env ::
  "string \<Rightarrow> string \<Rightarrow> (nat \<Rightarrow> string \<Rightarrow> http_response) \<Rightarrow> (nat \<Rightarrow> string \<Rightarrow> exn + string) \<Rightarrow> env" where
  "example_env booted_version booted_path http device =
     \<lparr>free_space = 1000,
      show_version_reply = (\<lambda>n. Inr \<lparr>nxos_ver_str = booted_version,
                                      nxos_file_name = booted_path,
                                      proc_board_id = ''SN1''\<rparr>),
      bootstrap_reply = (\<lambda>serial. Inr example_bootstrap),
      http_reply = http,
      file_md5sum = example_md5,
      show_boot_reply = (\<lambda>n. Inr ''bootflash:///nxos.bin''),
      cli_reply = device,
      remove_error = (\<lambda>p. None)\<rparr>"

definition good_download :: "nat \<Rightarrow> string \<Rightarrow> http_response" where
  "good_download n u = HttpBody ([1, 2] # [3] # []) None"

definition corrupt_download :: "nat \<Rightarrow> string \<Rightarrow> http_response" where
  "corrupt_download n u = HttpBody ([1, 2] # [4] # []) None"

definition no_download :: "nat \<Rightarrow> string \<Rightarrow> http_response" where
  "no_download n u = HttpError ''connection refused''"

definition device_ok :: "nat \<Rightarrow> string \<Rightarrow> exn + string" where
  "device_ok n command = Inr ''ok''"

definition device_copy_fails :: "nat \<Rightarrow> string \<Rightarrow> exn + string" where
  "device_copy_fails n command =
     (if command = ''copy running-config startup-config''
      then Inl (cmd_exec_error ''No startup configuration found'')
      else Inr ''ok'')"

definition device_show_fails :: "string \<Rightarrow> nat \<Rightarrow> string \<Rightarrow> exn + string" where
  "device_show_fails msg n command =
     (if command = ''show startup-config'' then Inl (cmd_exec_error msg) else Inr ''ok'')"

definition fs_corrupt_target :: "(string \<times> bytes) list" where
  "fs_corrupt_target = [(''/bootflash/nxos.bin'', [9, 9]), (''/bootflash/run.bin'', [7])]"

definition fs_only_target :: "(string \<times> bytes) list" where
  "fs_only_target = [(''/bootflash/nxos.bin'', [9, 9])]"

definition fs_only_running :: "(string \<times> bytes) list" where
  "fs_only_running = [(''/bootflash/run.bin'', [7])]"

definition fs_good_target :: "(string \<times> bytes) list" where
  "fs_good_target = [(''/bootflash/nxos.bin'', [1, 2, 3])]"

section \<open>Properties of the string primitives\<close>

lemma split_acc_no_sep: "sep \<notin> set s \<Longrightarrow> split_acc sep cur s = [rev cur @ s]"
  by (induction s arbitrary: cur) auto

lemma split_acc_at_sep:
  "sep \<notin> set s \<Longrightarrow> split_acc sep cur (s @ sep # rest) = (rev cur @ s) # split_acc sep [] rest"
  by (induction s arbitrary: cur) auto

lemma split_acc_tokens:
  "sep \<notin> set cur \<Longrightarrow> t \<in> set (split_acc sep cur s) \<Longrightarrow> sep \<notin> set t"
proof (induction s arbitrary: cur)
  case Nil
  then show ?case by simp
next
  case (Cons c cs)
  show ?case
  proof (cases "c = sep")
    case True
    with Cons.prems have "t = rev cur \<or> t \<in> set (split_acc sep [] cs)" by simp
    then show ?thesis using Cons.prems(1) Cons.IH [of "[]"] by auto
  next
    case False
    with Cons.prems have "t \<in> set (split_acc sep (c # cur) cs)" by simp
    then show ?thesis using Cons.IH [of "c # cur"] Cons.prems(1) False by simp
  qed
qed

lemma split_tokens: "t \<in> set (split sep s) \<Longrightarrow> sep \<notin> set t"
  using split_acc_tokens [of sep "[]" t s] by (simp add: split_def)

lemma split_acc_not_Nil: "split_acc sep cur s \<noteq> []"
  by (induction s arbitrary: cur) auto

lemma split_not_Nil: "split sep s \<noteq> []"
  by (simp add: split_def split_acc_not_Nil)

lemma split_first: "hd (split sep s) = takeWhile (\<lambda>c. c \<noteq> sep) s"
proof -
  have "hd (split_acc sep cur s) = rev cur @ takeWhile (\<lambda>c. c \<noteq> sep) s" for cur
    by (induction s arbitrary: cur) auto
  then show ?thesis by (simp add: split_def)
qed

lemma join_concat: "join sep (x # xs) = x @ concat (map ((@) sep) xs)"
  by (induction xs arbitrary: x) auto

lemma join_slash: "join ''/'' (x # xs) = x @ concat (map ((#) CHR ''/'') xs)"
  by (induction xs arbitrary: x) auto

lemma split_concat:
  "\<forall>s\<in>set segs. sep \<notin> set s \<Longrightarrow> sep \<notin> set x \<Longrightarrow>
   split_acc sep cur (x @ concat (map ((#) sep) segs)) = (rev cur @ x) # segs"
proof (induction segs arbitrary: x cur)
  case Nil
  then show ?case by (simp add: split_acc_no_sep)
next
  case (Cons s segs)
  have "split_acc sep cur (x @ sep # (s @ concat (map ((#) sep) segs)))
        = (rev cur @ x) # split_acc sep [] (s @ concat (map ((#) sep) segs))"
    using Cons.prems by (simp add: split_acc_at_sep)
  also have "split_acc sep [] (s @ concat (map ((#) sep) segs)) = s # segs"
    using Cons.IH [of s "[]"] Cons.prems by simp
  finally show ?case by simp
qed

section \<open>Properties of the path translator\<close>

lemma label_name:
  "label \<in> set volume_labels \<Longrightarrow>
   remove_char CHR '':'' label \<noteq> [] \<and> CHR ''/'' \<notin> set (remove_char CHR '':'' label)"
  by (auto simp: volume_labels_def remove_char_def)

lemma label_colon:
  "name @ '':'' \<in> set volume_labels \<Longrightarrow> remove_char CHR '':'' (name @ '':'') = name"
  by (auto simp: volume_labels_def remove_char_def)

text \<open>
  Claim C7. When the first slash-separated segment of the input is one of the five volume
  labels \<open>name:\<close>, the translator returns \<open>/name\<close> followed by the later non-empty
  segments, each after a slash; when it is not, the translator raises \<open>ValueError\<close> (the
  specification's \<open>InvalidPathError\<close>). \<open>bootflash:/dir/file.bin\<close> becomes
  \<open>/bootflash/dir/file.bin\<close> and \<open>foo:/bar\<close> is refused. The translator is a function of
  its argument alone: it takes and returns no state.
\<close>

theorem to_posix_path_translates:
  "(split CHR ''/'' path = (name @ '':'') # rest \<and> name @ '':'' \<in> set volume_labels \<longrightarrow>
      to_posix_path path =
        Inr (CHR ''/'' # name @ concat (map ((#) CHR ''/'') (filter (\<lambda>t. t \<noteq> []) rest))))
   \<and> (hd (split CHR ''/'' path) \<notin> set volume_labels \<longrightarrow>
      to_posix_path path = Inl (ValueError (''Unknown path type: '' @ path)))
   \<and> to_posix_path ''bootflash:/dir/file.bin'' = Inr ''/bootflash/dir/file.bin''
   \<and> to_posix_path ''foo:/bar'' = Inl (ValueError ''Unknown path type: foo:/bar'')"
proof (intro conjI impI)
  assume a: "split CHR ''/'' path = (name @ '':'') # rest \<and> name @ '':'' \<in> set volume_labels"
  then show "to_posix_path path =
        Inr (CHR ''/'' # name @ concat (map ((#) CHR ''/'') (filter (\<lambda>t. t \<noteq> []) rest)))"
    by (simp add: to_posix_path_def join_slash label_colon)
next
  assume "hd (split CHR ''/'' path) \<notin> set volume_labels"
  then show "to_posix_path path = Inl (ValueError (''Unknown path type: '' @ path))"
    using split_not_Nil [of "CHR ''/''" path]
    by (cases "split CHR ''/'' path") (simp_all add: to_posix_path_def)
next
  show "to_posix_path ''bootflash:/dir/file.bin'' = Inr ''/bootflash/dir/file.bin''"
    by (simp add: to_posix_path_def split_def volume_labels_def remove_char_def)
next
  show "to_posix_path ''foo:/bar'' = Inl (ValueError ''Unknown path type: foo:/bar'')"
    by (simp add: to_posix_path_def split_def volume_labels_def)
qed

theorem to_posix_path_translates_witness:
  "split CHR ''/'' ''usb1:/a//b/'' = (''usb1'' @ '':'') # [''a'', [], ''b'', []]
   \<and> ''usb1'' @ '':'' \<in> set volume_labels
   \<and> to_posix_path ''usb1:/a//b/'' = Inr ''/usb1/a/b''
   \<and> hd (split CHR ''/'' ''/bootflash/x'') \<notin> set volume_labels
   \<and> to_posix_path ''/bootflash/x'' = Inl (ValueError ''Unknown path type: /bootflash/x'')"
proof -
  have s1: "split CHR ''/'' ''usb1:/a//b/'' = (''usb1'' @ '':'') # [''a'', [], ''b'', []]"
    by (simp add: split_def)
  have l1: "''usb1'' @ '':'' \<in> set volume_labels" by (simp add: volume_labels_def)
  have s2: "hd (split CHR ''/'' ''/bootflash/x'') \<notin> set volume_labels"
    by (simp add: split_def volume_labels_def)
  have t1: "to_posix_path ''usb1:/a//b/'' = Inr ''/usb1/a/b''"
    using to_posix_path_translates [of "''usb1:/a//b/''" "''usb1''" "[''a'', [], ''b'', []]"]
          s1 l1
    by simp
  have t2: "to_posix_path ''/bootflash/x'' = Inl (ValueError ''Unknown path type: /bootflash/x'')"
    using to_posix_path_translates [of "''/bootflash/x''" "''usb1''" "[]"] s2 by simp
  show ?thesis
    using s1 l1 s2 t1 t2 by blast
qed

text \<open>
  Claim C10. Every path the translator returns is absolute and has no empty segment after
  the root: doubled and trailing slashes of the input are gone. \<open>bootflash:///file.bin\<close>
  and \<open>bootflash:/file.bin\<close> both become \<open>/bootflash/file.bin\<close>.
\<close>

theorem to_posix_path_no_empty_segments:
  "(to_posix_path path = Inr r \<longrightarrow> no_empty_segments r)
   \<and> to_posix_path ''bootflash:///file.bin'' = Inr ''/bootflash/file.bin''
   \<and> to_posix_path ''bootflash:/file.bin'' = Inr ''/bootflash/file.bin''"
proof (intro conjI impI)
  assume a: "to_posix_path path = Inr r"
  obtain token0 tokens where sp: "split CHR ''/'' path = token0 # tokens"
    using split_not_Nil [of "CHR ''/''" path] by (cases "split CHR ''/'' path") auto
  have lab: "token0 \<in> set volume_labels"
    using a sp by (auto simp: to_posix_path_def split: if_splits)
  let ?segs = "remove_char CHR '':'' token0 # filter (\<lambda>token. token \<noteq> []) tokens"
  have r: "r = concat (map ((#) CHR ''/'') ?segs)"
    using a sp lab by (simp add: to_posix_path_def join_slash)
  have nosep: "\<forall>s\<in>set ?segs. CHR ''/'' \<notin> set s"
    using split_tokens [of _ "CHR ''/''" path] sp label_name [OF lab] by auto
  have "split CHR ''/'' r = [] # ?segs"
    unfolding r split_def using split_concat [of ?segs "CHR ''/''" "[]" "[]"] nosep by simp
  moreover have "[] \<notin> set ?segs" using label_name [OF lab] by auto
  ultimately show "no_empty_segments r" by (simp add: no_empty_segments_def)
next
  show "to_posix_path ''bootflash:///file.bin'' = Inr ''/bootflash/file.bin''"
    by (simp add: to_posix_path_def split_def volume_labels_def remove_char_def)
next
  show "to_posix_path ''bootflash:/file.bin'' = Inr ''/bootflash/file.bin''"
    by (simp add: to_posix_path_def split_def volume_labels_def remove_char_def)
qed

theorem to_posix_path_no_empty_segments_witness:
  "to_posix_path ''nvram://a///b//'' = Inr ''/nvram/a/b'' \<and> no_empty_segments ''/nvram/a/b''"
proof -
  have t: "to_posix_path ''nvram://a///b//'' = Inr ''/nvram/a/b''"
    by (simp add: to_posix_path_def split_def volume_labels_def remove_char_def)
  show ?thesis
    using to_posix_path_no_empty_segments [of "''nvram://a///b//''" "''/nvram/a/b''"] t by simp
qed

section \<open>Properties of the password hash utility\<close>

lemma map_of_zip_position:
  "c \<in> set xs \<Longrightarrow> length xs = length ys \<Longrightarrow>
   map_of (zip xs ys) c = Some (ys ! length (takeWhile (\<lambda>x. x \<noteq> c) xs))"
proof (induction xs arbitrary: ys)
  case Nil
  then show ?case by simp
next
  case (Cons x xs)
  then obtain y ys' where ys: "ys = y # ys'" by (cases ys) auto
  show ?case using Cons ys by auto
qed

lemma map_of_rev_distinct: "distinct (map fst xs) \<Longrightarrow> map_of (rev xs) = map_of xs"
proof (induction xs)
  case Nil
  then show ?case by simp
next
  case (Cons p xs)
  obtain k v where p: "p = (k, v)" by (cases p)
  have notin: "map_of xs k = None"
    using Cons.prems p by (simp add: map_of_eq_None_iff)
  have "map_of (rev (p # xs)) = map_of [(k, v)] ++ map_of (rev xs)"
    by (simp add: p map_of_append)
  also have "\<dots> = map_of [(k, v)] ++ map_of xs"
    using Cons by simp
  also have "\<dots> = map_of (p # xs)"
    using notin by (auto simp: p map_add_def fun_eq_iff split: option.splits)
  finally show ?case .
qed

lemma distinct_std: "distinct std_b64chars"
  by (simp add: std_b64chars_def)

lemma length_alphabets: "length std_b64chars = 64" "length cisco_b64chars = 64"
  by (simp_all add: std_b64chars_def cisco_b64chars_def)

lemma b64table_eq: "b64table c = (if c \<in> set std_b64chars then Some (spec_remap c) else None)"
proof -
  have d: "distinct (map fst (zip std_b64chars cisco_b64chars))"
    using distinct_std length_alphabets by (simp add: map_fst_zip)
  have "b64table c = map_of (zip std_b64chars cisco_b64chars) c"
    unfolding b64table_def maketrans_def using d by (simp add: map_of_rev_distinct)
  also have "\<dots> = (if c \<in> set std_b64chars then Some (spec_remap c) else None)"
  proof (cases "c \<in> set std_b64chars")
    case True
    then show ?thesis
      using map_of_zip_position [of c std_b64chars cisco_b64chars] length_alphabets
      by (simp add: spec_remap_def)
  next
    case False
    then have "c \<notin> fst ` set (zip std_b64chars cisco_b64chars)"
      using length_alphabets by (metis map_fst_zip set_map)
    then show ?thesis using False by (simp add: map_of_eq_None_iff)
  qed
  finally show ?thesis .
qed

lemma translate_b64table: "translate b64table s = map spec_remap s"
  by (simp add: translate_def b64table_eq spec_remap_def)

lemma to_cisco_base64_spec: "to_cisco_base64 data = spec_encode data"
  by (simp add: to_cisco_base64_def spec_encode_def translate_b64table)

lemma b64char_in: "i < 64 \<Longrightarrow> b64char i \<in> set std_b64chars"
  unfolding b64char_def using length_alphabets(1) nth_mem [of i std_b64chars] by simp

lemma pad_not_std: "CHR ''='' \<notin> set std_b64chars"
  by (simp add: std_b64chars_def)

lemma pad_not_cisco: "CHR ''='' \<notin> set cisco_b64chars"
  by (simp add: cisco_b64chars_def)

lemma spec_remap_in: "c \<in> set std_b64chars \<Longrightarrow> spec_remap c \<in> set cisco_b64chars"
proof -
  assume c: "c \<in> set std_b64chars"
  then have "length (takeWhile (\<lambda>x. x \<noteq> c) xs) < length xs" if "c \<in> set xs" for xs
    using that by (induction xs) auto
  with c have "length (takeWhile (\<lambda>x. x \<noteq> c) std_b64chars) < length std_b64chars"
    by blast
  then have "length (takeWhile (\<lambda>x. x \<noteq> c) std_b64chars) < length cisco_b64chars"
    by (simp add: length_alphabets)
  then show ?thesis using c by (simp add: spec_remap_def)
qed

lemma byte_bound: "unat (a :: 8 word) < 256"
  using unsigned_less [of a, where ?'a = nat] by simp

lemma first_index: "(unat (a :: 8 word) * 65536 + x * 256 + y) div 262144 < 64"
  if "x < 256" "y < 256"
proof -
  have "unat a < 256" by (rule byte_bound)
  with that show ?thesis by simp
qed

lemma b64encode_shape:
  "\<exists>body k. b64encode d = body @ replicate k CHR ''=''
      \<and> set body \<subseteq> set std_b64chars \<and> length body = (4 * length d + 2) div 3"
proof (induction d rule: b64encode.induct)
  case 1
  show ?case by simp
next
  case (2 a)
  let ?n = "unat a * 65536"
  have "b64encode [a] = [b64char (?n div 262144), b64char (?n div 4096 mod 64)] @ replicate 2 CHR ''=''"
    by (simp add: Let_def numeral_2_eq_2)
  moreover have "?n div 262144 < 64" using first_index [of 0 0 a] by simp
  ultimately show ?case
    by (intro exI [of _ "[b64char (?n div 262144), b64char (?n div 4096 mod 64)]"] exI [of _ 2])
       (simp add: b64char_in)
next
  case (3 a b)
  let ?n = "unat a * 65536 + unat b * 256"
  have "b64encode [a, b] =
        [b64char (?n div 262144), b64char (?n div 4096 mod 64), b64char (?n div 64 mod 64)]
        @ replicate 1 CHR ''=''"
    by (simp add: Let_def)
  moreover have "?n div 262144 < 64"
    using first_index [of "unat b" 0 a] byte_bound [of b] by simp
  ultimately show ?case
    by (intro exI [of _ "[b64char (?n div 262144), b64char (?n div 4096 mod 64),
                          b64char (?n div 64 mod 64)]"] exI [of _ 1])
       (simp add: b64char_in)
next
  case (4 a b c rest)
  let ?n = "unat a * 65536 + unat b * 256 + unat c"
  let ?q = "[b64char (?n div 262144), b64char (?n div 4096 mod 64), b64char (?n div 64 mod 64),
             b64char (?n mod 64)]"
  from 4 obtain body k where ih: "b64encode rest = body @ replicate k CHR ''=''"
      "set body \<subseteq> set std_b64chars" "length body = (4 * length rest + 2) div 3"
    by blast
  have e: "b64encode (a # b # c # rest) = (?q @ body) @ replicate k CHR ''=''"
    using ih(1) by (simp add: Let_def)
  have i0: "?n div 262144 < 64"
    using first_index [of "unat b" "unat c" a] byte_bound [of b] byte_bound [of c] by simp
  have s: "set (?q @ body) \<subseteq> set std_b64chars"
    using ih(2) i0 by (simp add: b64char_in)
  have l: "length (?q @ body) = (4 * length (a # b # c # rest) + 2) div 3"
    using ih(3) by simp
  show ?case using e s l by blast
qed

lemma rstrip_padding: "c \<notin> set xs \<Longrightarrow> rstrip c (xs @ replicate k c) = xs"
proof -
  assume c: "c \<notin> set xs"
  have "dropWhile (\<lambda>x. x = c) (replicate k c @ rev xs) = dropWhile (\<lambda>x. x = c) (rev xs)"
    by (simp add: dropWhile_append)
  also have "\<dots> = rev xs"
    using c by (cases "rev xs") (auto simp: dropWhile_eq_self_iff)
  finally show ?thesis by (simp add: rstrip_def)
qed

lemma spec_encode_shape:
  "set (spec_encode d) \<subseteq> set cisco_b64chars \<and> length (spec_encode d) = (4 * length d + 2) div 3"
proof -
  obtain body k where b: "b64encode d = body @ replicate k CHR ''=''"
      "set body \<subseteq> set std_b64chars" "length body = (4 * length d + 2) div 3"
    using b64encode_shape [of d] by blast
  have in_cisco: "set (map spec_remap body) \<subseteq> set cisco_b64chars"
    using b(2) spec_remap_in by auto
  have "map spec_remap (b64encode d) = map spec_remap body @ replicate k CHR ''=''"
    using pad_not_std by (simp add: b(1) spec_remap_def)
  moreover have "CHR ''='' \<notin> set (map spec_remap body)"
    using in_cisco pad_not_cisco by blast
  ultimately have "spec_encode d = map spec_remap body"
    unfolding spec_encode_def using rstrip_padding [of "CHR ''=''" "map spec_remap body" k] by simp
  then show ?thesis using in_cisco b(3) by simp
qed

lemma generate_eq_spec:
  "generate_type8_password pbkdf2_hmac urandom password salt_bytes =
     spec_derive pbkdf2_hmac password
       (case salt_bytes of None \<Rightarrow> urandom 10 | Some s \<Rightarrow> if s = [] then urandom 10 else s)"
  by (simp add: generate_type8_password_def spec_derive_def to_cisco_base64_spec Let_def)

lemma pad_not_in_spec_encode: "CHR ''='' \<notin> set (spec_encode d)"
  using spec_encode_shape [of d] pad_not_cisco by blast

lemma spec_encode_digits: "spec_encode (encode ''0123456789'') = ''A12mAnEpBXQsCE''"
proof -
  have a: "encode ''0123456789'' = [48, 49, 50, 51, 52, 53, 54, 55, 56, 57]"
    by (simp add: encode_def)
  have b: "b64encode [48, 49, 50, 51, 52, 53, 54, 55, 56, 57] = ''MDEyMzQ1Njc4OQ==''"
    by (simp add: b64char_def std_b64chars_def)
  have c: "map spec_remap ''MDEyMzQ1Njc4OQ=='' = ''A12mAnEpBXQsCE==''"
    by (simp add: spec_remap_def std_b64chars_def cisco_b64chars_def)
  show ?thesis by (simp only: spec_encode_def a b c) (simp add: rstrip_def)
qed

lemma spec_encode_zero_key:
  "spec_encode (replicate 32 0) = ''...........................................''"
proof -
  have a: "replicate 32 (0 :: 8 word) =
      [0,0,0,0,0,0,0,0,0,0,0,0,0,0,0,0,0,0,0,0,0,0,0,0,0,0,0,0,0,0,0,0]"
    by (simp add: eval_nat_numeral)
  have b: "b64encode [0,0,0,0,0,0,0,0,0,0,0,0,0,0,0,0,0,0,0,0,0,0,0,0,0,0,0,0,0,0,0,0]
       = ''AAAAAAAAAAAAAAAAAAAAAAAAAAAAAAAAAAAAAAAAAAA=''"
    by (simp add: b64char_def std_b64chars_def)
  have c: "map spec_remap ''AAAAAAAAAAAAAAAAAAAAAAAAAAAAAAAAAAAAAAAAAAA=''
       = ''...........................................=''"
    by (simp add: spec_remap_def std_b64chars_def cisco_b64chars_def)
  show ?thesis by (simp only: spec_encode_def a b c) (simp add: rstrip_def)
qed

lemma spec_encode_zero_salt: "spec_encode (replicate 10 0) = ''..............''"
proof -
  have a: "replicate 10 (0 :: 8 word) = [0,0,0,0,0,0,0,0,0,0]"
    by (simp add: eval_nat_numeral)
  have b: "b64encode [0,0,0,0,0,0,0,0,0,0] = ''AAAAAAAAAAAAAA==''"
    by (simp add: b64char_def std_b64chars_def)
  have c: "map spec_remap ''AAAAAAAAAAAAAA=='' = ''..............==''"
    by (simp add: spec_remap_def std_b64chars_def cisco_b64chars_def)
  show ?thesis by (simp only: spec_encode_def a b c) (simp add: rstrip_def)
qed

lemma spec_encode_one_salt: "spec_encode (replicate 10 1) = ''.E2/.E2/.E2/.E''"
proof -
  have a: "replicate 10 (1 :: 8 word) = [1,1,1,1,1,1,1,1,1,1]"
    by (simp add: eval_nat_numeral)
  have b: "b64encode [1,1,1,1,1,1,1,1,1,1] = ''AQEBAQEBAQEBAQ==''"
    by (simp add: b64char_def std_b64chars_def)
  have c: "map spec_remap ''AQEBAQEBAQEBAQ=='' = ''.E2/.E2/.E2/.E==''"
    by (simp add: spec_remap_def std_b64chars_def cisco_b64chars_def)
  show ?thesis by (simp only: spec_encode_def a b c) (simp add: rstrip_def)
qed

text \<open>
  Claim C8. For every password and every 10-byte salt the derivation does not depend on the
  random source and equals the specification's rendering: the key is
  \<open>pbkdf2_hmac ''sha256''\<close> of the password and the salt with 20000 iterations, salt and key
  are base64-encoded, remapped position for position to the vendor alphabet and stripped of
  padding, and the result is \<open>$nx-pbkdf2$\<close>, the encoded salt, \<open>$\<close>, the encoded key. The
  output has no \<open>=\<close>, both encodings use vendor-alphabet characters only, the encoded salt
  has 14 characters and a 32-byte key is encoded in 43.
\<close>

theorem generate_type8_password_derivation:
  assumes "length salt = 10"
  shows "generate_type8_password pbkdf2_hmac urandom password (Some salt)
           = spec_derive pbkdf2_hmac password salt
       \<and> generate_type8_password pbkdf2_hmac urandom' password (Some salt)
           = generate_type8_password pbkdf2_hmac urandom password (Some salt)
       \<and> CHR ''='' \<notin> set (generate_type8_password pbkdf2_hmac urandom password (Some salt))
       \<and> set (spec_encode salt) \<subseteq> set cisco_b64chars
       \<and> set (spec_encode (pbkdf2_hmac ''sha256'' (encode password) salt 20000))
           \<subseteq> set cisco_b64chars
       \<and> length (spec_encode salt) = 14
       \<and> (length (pbkdf2_hmac ''sha256'' (encode password) salt 20000) = 32 \<longrightarrow>
            length (spec_encode (pbkdf2_hmac ''sha256'' (encode password) salt 20000)) = 43)"
proof -
  from assms have ne: "salt \<noteq> []" by auto
  have g: "generate_type8_password pbkdf2_hmac u password (Some salt)
           = spec_derive pbkdf2_hmac password salt" for u
    using ne by (simp add: generate_eq_spec)
  have nopad: "CHR ''='' \<notin> set (spec_derive pbkdf2_hmac password salt)"
    by (simp add: spec_derive_def pad_not_in_spec_encode)
  have l: "length (spec_encode salt) = 14"
    using spec_encode_shape [of salt] assms by simp
  show ?thesis
    using g nopad l spec_encode_shape [of salt]
      spec_encode_shape [of "pbkdf2_hmac ''sha256'' (encode password) salt 20000"]
    by simp
qed


theorem generate_type8_password_derivation_witness:
  "length (encode ''0123456789'') = 10
   \<and> generate_type8_password zero_kdf (\<lambda>n. []) ''pw'' (Some (encode ''0123456789''))
       = ''$nx-pbkdf2$A12mAnEpBXQsCE$...........................................''"
proof -
  have l: "length (encode ''0123456789'') = 10" by (simp add: encode_def)
  note e1 = spec_encode_digits
  note e2 = spec_encode_zero_key
  show ?thesis
    using generate_type8_password_derivation [OF l, of zero_kdf "\<lambda>n. []" "''pw''" "\<lambda>n. []"] l e1 e2
    by (simp add: spec_derive_def zero_kdf_def)
qed

text \<open>
  Claim C9. The salt is taken from the random source exactly when the argument is \<open>None\<close> or
  the empty byte string, and is the supplied one exactly when that is non-empty. With an
  explicit empty salt the result follows the random source: two random sources give two
  different hashes of the same password.
\<close>

theorem salt_truthiness:
  "generate_type8_password pbkdf2_hmac urandom password salt_bytes =
     spec_derive pbkdf2_hmac password
       (if salt_bytes = None \<or> salt_bytes = Some [] then urandom 10 else the salt_bytes)
   \<and> generate_type8_password pbkdf2_hmac (\<lambda>n. replicate n 0) password (Some [])
       \<noteq> generate_type8_password pbkdf2_hmac (\<lambda>n. replicate n 1) password (Some [])"
proof
  show "generate_type8_password pbkdf2_hmac urandom password salt_bytes =
     spec_derive pbkdf2_hmac password
       (if salt_bytes = None \<or> salt_bytes = Some [] then urandom 10 else the salt_bytes)"
    by (cases salt_bytes) (simp_all add: generate_eq_spec)
next
  note e0 = spec_encode_zero_salt
  note e1 = spec_encode_one_salt
  show "generate_type8_password pbkdf2_hmac (\<lambda>n. replicate n 0) password (Some [])
       \<noteq> generate_type8_password pbkdf2_hmac (\<lambda>n. replicate n 1) password (Some [])"
    by (simp add: generate_eq_spec spec_derive_def e0 e1)
qed

theorem salt_truthiness_witness:
  "generate_type8_password zero_kdf (\<lambda>n. encode ''0123456789'') ''pw'' None
     = ''$nx-pbkdf2$A12mAnEpBXQsCE$...........................................''
   \<and> generate_type8_password zero_kdf (\<lambda>n. encode ''0123456789'') ''pw'' (Some [])
     = ''$nx-pbkdf2$A12mAnEpBXQsCE$...........................................''
   \<and> generate_type8_password zero_kdf (\<lambda>n. []) ''pw'' (Some (encode ''0123456789''))
     = ''$nx-pbkdf2$A12mAnEpBXQsCE$...........................................''"
proof -
  note e1 = spec_encode_digits
  note e2 = spec_encode_zero_key
  have ne: "encode ''0123456789'' \<noteq> []" by (simp add: encode_def)
  show ?thesis
    using salt_truthiness [of zero_kdf "\<lambda>n. encode ''0123456789''" "''pw''" None]
          salt_truthiness [of zero_kdf "\<lambda>n. encode ''0123456789''" "''pw''" "Some []"]
          salt_truthiness [of zero_kdf "\<lambda>n. []" "''pw''" "Some (encode ''0123456789'')"]
          e1 e2 ne
    by (simp add: spec_derive_def zero_kdf_def)
qed

section \<open>Evaluating the model\<close>

lemmas monad_defs = returns_def raise_def lift_def and_then_def try_except_def emit_def log_def

lemmas effect_defs = cli_def cli_json_show_version_def cli_json_file_md5sum_def cli_json_show_boot_def
  requests_get_def os_path_exists_def os_remove_def open_wb_def file_write_def glob_bootflash_bin_def
  cli_count_def get_count_def get_bootstrap_data_def

lemmas script_defs = get_booted_image_def clean_old_images_def download_image_def configure_def
  main_prepare_def main_image_def main_boot_config_def main_configure_def main_show_startup_def
  main_reload_def main_def script_def run_def

lemmas example_defs = example_bootstrap_def example_md5_def example_env_def good_download_def
  corrupt_download_def no_download_def device_ok_def device_copy_fails_def device_show_fails_def

lemmas fs_defs = fs_corrupt_target_def fs_only_target_def fs_only_running_def fs_good_target_def

lemma to_posix_nxos: "to_posix_path ''bootflash:///nxos.bin'' = Inr ''/bootflash/nxos.bin''"
  by (simp add: to_posix_path_def split_def volume_labels_def remove_char_def)

lemma to_posix_nxos1: "to_posix_path ''bootflash:/nxos.bin'' = Inr ''/bootflash/nxos.bin''"
  by (simp add: to_posix_path_def split_def volume_labels_def remove_char_def)

lemma to_posix_run: "to_posix_path ''bootflash:///run.bin'' = Inr ''/bootflash/run.bin''"
  by (simp add: to_posix_path_def split_def volume_labels_def remove_char_def)

lemma example_target:
  "LOCAL_IMAGE_DIR @ basename (url (bs_image example_bootstrap)) = ''bootflash:///nxos.bin''"
  by (simp add: LOCAL_IMAGE_DIR_def basename_def example_bootstrap_def)

lemmas eval_simps = monad_defs effect_defs script_defs example_defs fs_defs Let_def
  to_posix_nxos to_posix_nxos1 to_posix_run LOCAL_IMAGE_DIR_def basename_def is_bootflash_bin_def

section \<open>Events added by each block\<close>

text \<open>
  Every statement of the script only appends events. The lemmas below say of which kind,
  block by block, and give the shape of the trace of \<open>main\<close>: events of the preparation
  and of the image block, then, if the run gets that far, the decision and what follows it.
\<close>

lemma addsI: "(\<And>w. \<exists>evs. trace (snd (m w)) = trace w @ evs \<and> list_all P evs) \<Longrightarrow> adds P m"
  by (simp add: adds_def)

lemma addsD: "adds P m \<Longrightarrow> m w = (r, w') \<Longrightarrow> \<exists>evs. trace w' = trace w @ evs \<and> list_all P evs"
  unfolding adds_def by (metis snd_conv)

lemma adds_returns: "adds P (returns x)"
  by (simp add: adds_def returns_def)

lemma adds_raise: "adds P (raise e)"
  by (simp add: adds_def raise_def)

lemma adds_lift: "adds P (lift r)"
  by (simp add: adds_def lift_def)

lemma adds_emit: "P ev \<Longrightarrow> adds P (emit ev)"
  by (simp add: adds_def emit_def)

lemma adds_log: "P (Log l m) \<Longrightarrow> adds P (log l m)"
  by (simp add: log_def adds_emit)

lemma adds_and_then:
  assumes "adds P m" and "\<And>x. adds P (f x)"
  shows "adds P (and_then m f)"
proof (rule addsI)
  fix w
  obtain r w1 where m: "m w = (r, w1)" by (cases "m w")
  from addsD [OF assms(1) m] obtain e1 where e1: "trace w1 = trace w @ e1" "list_all P e1"
    by blast
  show "\<exists>evs. trace (snd (and_then m f w)) = trace w @ evs \<and> list_all P evs"
  proof (cases r)
    case (Inl e)
    then show ?thesis using m e1 by (simp add: and_then_def)
  next
    case (Inr x)
    obtain r2 w2 where f: "f x w1 = (r2, w2)" by (cases "f x w1")
    from addsD [OF assms(2) f] obtain e2 where e2: "trace w2 = trace w1 @ e2" "list_all P e2"
      by blast
    have "trace (snd (and_then m f w)) = trace w @ (e1 @ e2)"
      using m Inr f e1 e2 by (simp add: and_then_def)
    moreover have "list_all P (e1 @ e2)" using e1 e2 by simp
    ultimately show ?thesis by blast
  qed
qed

lemma adds_try_except:
  assumes "adds P m" and "\<And>e. adds P (h e)"
  shows "adds P (try_except m h)"
proof (rule addsI)
  fix w
  obtain r w1 where m: "m w = (r, w1)" by (cases "m w")
  from addsD [OF assms(1) m] obtain e1 where e1: "trace w1 = trace w @ e1" "list_all P e1"
    by blast
  show "\<exists>evs. trace (snd (try_except m h w)) = trace w @ evs \<and> list_all P evs"
  proof (cases r)
    case (Inr x)
    then show ?thesis using m e1 by (simp add: try_except_def)
  next
    case (Inl e)
    obtain r2 w2 where f: "h e w1 = (r2, w2)" by (cases "h e w1")
    from addsD [OF assms(2) f] obtain e2 where e2: "trace w2 = trace w1 @ e2" "list_all P e2"
      by blast
    have "trace (snd (try_except m h w)) = trace w @ (e1 @ e2)"
      using m Inl f e1 e2 by (simp add: try_except_def)
    moreover have "list_all P (e1 @ e2)" using e1 e2 by simp
    ultimately show ?thesis by blast
  qed
qed

lemma adds_if: "adds P a \<Longrightarrow> adds P b \<Longrightarrow> adds P (if c then a else b)"
  by simp

lemma adds_cli: "P (Cli c) \<Longrightarrow> adds P (cli env c)"
  by (simp add: adds_def cli_def)

lemma adds_show_version: "P (Cli ''show version'') \<Longrightarrow> adds P (cli_json_show_version env)"
  by (simp add: adds_def cli_json_show_version_def)

lemma adds_file_md5sum:
  "P (Cli (''show file '' @ path @ '' md5sum'')) \<Longrightarrow> adds P (cli_json_file_md5sum env path)"
  by (simp add: adds_def cli_json_file_md5sum_def)

lemma adds_show_boot: "P (Cli ''show boot'') \<Longrightarrow> adds P (cli_json_show_boot env)"
  by (simp add: adds_def cli_json_show_boot_def)

lemma adds_requests_get: "P (ImageGet u) \<Longrightarrow> adds P (requests_get env u)"
  by (simp add: adds_def requests_get_def)

lemma adds_get_bootstrap_data: "P (BootstrapGet serial) \<Longrightarrow> adds P (get_bootstrap_data env serial)"
  by (simp add: adds_def get_bootstrap_data_def)

lemma adds_os_path_exists: "adds P (os_path_exists p)"
  by (simp add: adds_def os_path_exists_def)

lemma adds_os_remove: "P (OsRemove p) \<Longrightarrow> adds P (os_remove env p)"
  by (simp add: adds_def os_remove_def split: option.split)

lemma adds_open_wb: "adds P (open_wb p)"
  by (simp add: adds_def open_wb_def)

lemma adds_file_write: "adds P (file_write p data)"
  by (simp add: adds_def file_write_def)

lemma adds_glob: "adds P glob_bootflash_bin"
  by (simp add: adds_def glob_bootflash_bin_def)

lemmas adds_intros = adds_returns adds_raise adds_lift adds_log adds_and_then adds_try_except
  adds_cli adds_show_version adds_file_md5sum adds_show_boot adds_requests_get
  adds_get_bootstrap_data adds_os_path_exists adds_os_remove adds_open_wb adds_file_write adds_glob

lemma adds_clean_loop:
  "adds (\<lambda>e. \<not> is_decision e) (clean_loop env running_image_path target_image_path bin_files)"
  by (induction bin_files) (auto intro!: adds_intros split: exn.split)

lemma adds_write_chunks: "adds (\<lambda>e. \<not> is_decision e) (write_chunks p written chunks)"
  by (induction chunks arbitrary: written) (auto intro!: adds_intros)

lemma adds_download_image:
  "adds (\<lambda>e. \<not> is_decision e) (download_image env image_conf target_image_path)"
  unfolding download_image_def
  by (auto intro!: adds_intros adds_write_chunks split: http_response.split option.split)

lemma adds_main_prepare: "adds (\<lambda>e. \<not> is_decision e) (main_prepare env)"
  unfolding main_prepare_def get_booted_image_def clean_old_images_def Let_def
  by (auto intro!: adds_intros adds_clean_loop split: exn.split)

lemma adds_main_image:
  "adds (\<lambda>e. \<not> is_decision e) (main_image env bootstrap running_image target_image_path)"
  unfolding main_image_def
  by (auto intro!: adds_intros adds_download_image split: exn.split)

lemma adds_main_configure: "adds quiet (main_configure env bootstrap)"
  unfolding main_configure_def configure_def
  by (auto intro!: adds_intros simp: quiet_def split: exn.split)

lemma adds_main_show_startup: "adds quiet (main_show_startup env)"
  unfolding main_show_startup_def
  by (auto intro!: adds_intros simp: quiet_def split: exn.split)

lemma adds_main_reload: "adds quiet (main_reload env)"
  unfolding main_reload_def
  by (auto intro!: adds_intros simp: quiet_def)

lemma quiet_no_decision: "list_all quiet evs \<Longrightarrow> list_all (\<lambda>e. \<not> is_decision e) evs"
  by (induction evs) (auto simp: quiet_def)

lemma quiet_list: "list_all quiet evs \<Longrightarrow>
  list_all (\<lambda>e. \<not> is_decision e \<and> \<not> is_image_get e) evs"
  by (induction evs) (auto simp: quiet_def)

lemma no_decision_filter: "list_all (\<lambda>e. \<not> is_decision e) evs \<Longrightarrow> filter is_decision evs = []"
  by (induction evs) auto

lemma no_decision_dropWhile:
  "list_all (\<lambda>e. \<not> is_decision e) evs \<Longrightarrow> dropWhile (\<lambda>e. \<not> is_decision e) (evs @ rest)
     = dropWhile (\<lambda>e. \<not> is_decision e) rest"
  by (induction evs) auto

lemma is_decision_msg_decision [simp]: "is_decision_msg (decision_msg b r t)"
  by (simp add: decision_msg_def)

lemma main_boot_config_trace:
  assumes "main_boot_config env bootstrap running_image target_image_path w = (res, w')"
  shows "\<exists>later. trace w' = trace w @ Log INFO (decision_msg bootstrap running_image target_image_path) # later
           \<and> list_all quiet later"
proof (cases "running_path running_image \<noteq> target_image_path
         \<or> running_version running_image \<noteq> version (bs_image bootstrap)")
  case False
  then have "w' = w\<lparr>trace := trace w @ [Log INFO BootImageAlreadySet]\<rparr>"
    using assms by (auto simp: main_boot_config_def log_def emit_def)
  then show ?thesis using False by (simp add: decision_msg_def)
next
  case True
  let ?tail = "and_then (configure env [''boot nxos '' @ target_image_path]) (\<lambda>_.
           and_then (log INFO CopyingConfig) (\<lambda>_.
           and_then (cli env ''copy running-config startup-config'') (\<lambda>_.
           and_then (cli_json_show_boot env) (\<lambda>startup_image.
           log INFO (StartupImageSet startup_image)))))"
  let ?w1 = "w\<lparr>trace := trace w @ [Log INFO (SettingBootImage target_image_path)]\<rparr>"
  have tail: "adds quiet ?tail"
    unfolding configure_def by (auto intro!: adds_intros simp: quiet_def)
  have "?tail ?w1 = (res, w')"
    using assms True by (simp add: main_boot_config_def and_then_def log_def emit_def)
  from addsD [OF tail this] obtain later where "trace w' = trace ?w1 @ later" "list_all quiet later"
    by blast
  then show ?thesis using True by (simp add: decision_msg_def)
qed

lemma main_after_boot_trace:
  assumes "and_then (main_configure env bootstrap) (\<lambda>_.
             and_then (main_show_startup env) (\<lambda>_. main_reload env)) w = (res, w')"
  shows "\<exists>later. trace w' = trace w @ later \<and> list_all quiet later"
proof -
  have "adds quiet (and_then (main_configure env bootstrap) (\<lambda>_.
             and_then (main_show_startup env) (\<lambda>_. main_reload env)))"
    by (intro adds_and_then adds_main_configure adds_main_show_startup adds_main_reload)
  from addsD [OF this assms] show ?thesis .
qed

lemma main_blocks:
  "main env =
     and_then (main_prepare env) (\<lambda>(bootstrap, running_image, target_image_path).
     and_then (main_image env bootstrap running_image target_image_path) (\<lambda>_.
     main_configuration env bootstrap running_image target_image_path))"
  by (simp add: main_def main_configuration_def)

lemma main_trace:
  assumes "main env w = (res, w')"
  shows "(\<exists>early. trace w' = trace w @ early \<and> list_all (\<lambda>e. \<not> is_decision e) early
            \<and> (\<forall>b r t w1 w2. main_prepare env w = (Inr (b, r, t), w1) \<longrightarrow>
                   main_image env b r t w1 \<noteq> (Inr (), w2)))
       \<or> (\<exists>b r t w1 w2 early later.
             main_prepare env w = (Inr (b, r, t), w1) \<and> main_image env b r t w1 = (Inr (), w2)
             \<and> trace w' = trace w @ early @ Log INFO (decision_msg b r t) # later
             \<and> list_all (\<lambda>e. \<not> is_decision e) early \<and> list_all quiet later)"
proof -
  obtain r1 w1 where p: "main_prepare env w = (r1, w1)" by (cases "main_prepare env w")
  from addsD [OF adds_main_prepare p] obtain e1
    where e1: "trace w1 = trace w @ e1" "list_all (\<lambda>e. \<not> is_decision e) e1" by blast
  show ?thesis
  proof (cases r1)
    case (Inl e)
    then have "w' = w1" using assms p by (simp add: main_def and_then_def)
    then show ?thesis using e1 p Inl by auto
  next
    case (Inr x)
    obtain b r t where x: "x = (b, r, t)" by (cases x)
    obtain r2 w2 where i: "main_image env b r t w1 = (r2, w2)"
      by (cases "main_image env b r t w1")
    from addsD [OF adds_main_image i] obtain e2
      where e2: "trace w2 = trace w1 @ e2" "list_all (\<lambda>e. \<not> is_decision e) e2" by blast
    show ?thesis
    proof (cases r2)
      case (Inl e)
      then have "w' = w2" using assms p Inr x i by (simp add: main_def and_then_def)
      then have "trace w' = trace w @ (e1 @ e2)" using e1 e2 by simp
      moreover have "list_all (\<lambda>e. \<not> is_decision e) (e1 @ e2)" using e1 e2 by simp
      ultimately show ?thesis using p Inr x i Inl by auto
    next
      case ok: (Inr u)
      obtain r3 w3 where bc: "main_boot_config env b r t w2 = (r3, w3)"
        by (cases "main_boot_config env b r t w2")
      from main_boot_config_trace [OF bc] obtain l3
        where l3: "trace w3 = trace w2 @ Log INFO (decision_msg b r t) # l3" "list_all quiet l3"
        by blast
      have "\<exists>l4. trace w' = trace w3 @ l4 \<and> list_all quiet l4"
      proof (cases r3)
        case (Inl e)
        then have "w' = w3" using assms p Inr x i ok bc by (simp add: main_def and_then_def)
        then show ?thesis by simp
      next
        case (Inr u3)
        then have "and_then (main_configure env b) (\<lambda>_.
             and_then (main_show_startup env) (\<lambda>_. main_reload env)) w3 = (res, w')"
          using assms p \<open>r1 = Inr x\<close> x i ok bc by (simp add: main_def and_then_def)
        from main_after_boot_trace [OF this] show ?thesis .
      qed
      then obtain l4 where l4: "trace w' = trace w3 @ l4" "list_all quiet l4" by blast
      have "trace w' = trace w @ (e1 @ e2) @ Log INFO (decision_msg b r t) # (l3 @ l4)"
        using e1 e2 l3 l4 by simp
      moreover have "list_all (\<lambda>e. \<not> is_decision e) (e1 @ e2)" using e1 e2 by simp
      moreover have "list_all quiet (l3 @ l4)" using l3 l4 by simp
      moreover have "main_prepare env w = (Inr (b, r, t), w1)" using p Inr x by simp
      moreover have "main_image env b r t w1 = (Inr (), w2)" using i ok by simp
      ultimately show ?thesis by blast
    qed
  qed
qed

lemma script_trace:
  "\<exists>extra. trace (snd (script env w)) = trace (snd (main env w)) @ extra \<and> list_all quiet extra"
proof -
  obtain res w' where m: "main env w = (res, w')" by (cases "main env w")
  show ?thesis
  proof (cases res)
    case (Inr u)
    then show ?thesis using m by (simp add: script_def)
  next
    case (Inl e)
    then show ?thesis using m by (cases e) (simp_all add: script_def quiet_def)
  qed
qed

section \<open>Fetching and verifying the image\<close>

lemma to_posix_path_errors:
  "to_posix_path path = Inl e \<Longrightarrow> e = ValueError (''Unknown path type: '' @ path)"
  using split_not_Nil [of "CHR ''/''" path]
  by (cases "split CHR ''/'' path") (auto simp: to_posix_path_def split: if_splits)

lemma write_chunks_result:
  "map_of (files w) p = Some old \<Longrightarrow>
   \<exists>w'. write_chunks p written chunks w = (Inr (), w')
        \<and> map_of (files w') p = Some (old @ concat chunks)
        \<and> filter is_image_get (trace w') = filter is_image_get (trace w)"
proof (induction chunks arbitrary: w written old)
  case Nil
  then show ?case by (simp add: returns_def)
next
  case (Cons data chunks)
  let ?w1 = "w\<lparr>files := AList.update p (old @ data) (files w),
               trace := trace w @ [Log INFO (Downloaded (written + length data))]\<rparr>"
  have step: "write_chunks p written (data # chunks) w
        = write_chunks p (written + length data) chunks ?w1"
    using Cons.prems by (simp add: and_then_def file_write_def log_def emit_def)
  have "map_of (files ?w1) p = Some (old @ data)" by (simp add: update_conv)
  from Cons.IH [OF this, of "written + length data"] show ?case
    unfolding step by auto
qed

lemma download_image_present:
  assumes "to_posix_path target = Inr p" and "map_of (files w) p \<noteq> None"
  shows "download_image env image_conf target w =
           (verdict env image_conf target (files w),
            w\<lparr>trace := trace w @ [Log INFO (AlreadyExists target),
                                   Cli (''show file '' @ target @ '' md5sum'')]
                       @ (if verdict env image_conf target (files w) = Inr ()
                          then [Log INFO (Md5Matches target)] else [])\<rparr>)"
  using assms
  by (auto simp: download_image_def verdict_def monad_defs os_path_exists_def
      cli_json_file_md5sum_def split: sum.split)

lemma download_image_present_summary:
  assumes "to_posix_path target = Inr p" and "map_of (files w) p \<noteq> None"
  shows "\<exists>w'. download_image env image_conf target w
                 = (verdict env image_conf target (files w), w')
           \<and> files w' = files w
           \<and> filter is_image_get (trace w') = filter is_image_get (trace w)
           \<and> Cli (''show file '' @ target @ '' md5sum'') \<in> set (drop (length (trace w)) (trace w'))"
  by (simp add: download_image_present [OF assms])

lemma download_image_verdict_file:
  assumes "download_image env image_conf target w = (r, w')"
    and "r = Inr () \<or> (\<exists>m. r = Inl (ChecksumError m))"
  shows "\<exists>p. to_posix_path target = Inr p \<and> map_of (files w') p \<noteq> None
           \<and> r = verdict env image_conf target (files w')"
proof (cases "to_posix_path target")
  case (Inl e)
  then have "r = Inl (ValueError (''Unknown path type: '' @ target))"
    using assms(1) to_posix_path_errors [OF Inl] by (simp add: download_image_def monad_defs)
  with assms(2) show ?thesis by auto
next
  case (Inr p)
  show ?thesis
  proof (cases "map_of (files w) p")
    case (Some content)
    then have "r = verdict env image_conf target (files w)" "files w' = files w"
      using download_image_present [OF Inr, of w env image_conf] assms(1) by auto
    then show ?thesis using Inr Some by simp
  next
    case None
    let ?w1 = "w\<lparr>trace := trace w @ [Log INFO (Downloading (url image_conf) target),
                                       ImageGet (url image_conf)]\<rparr>"
    show ?thesis
    proof (cases "http_reply env (get_count w) (url image_conf)")
      case (HttpError m)
      then have "r = Inl (RequestException m)"
        using assms(1) Inr None
        by (simp add: download_image_def monad_defs os_path_exists_def requests_get_def get_count_def)
      with assms(2) show ?thesis by auto
    next
      case (HttpBody chunks failure)
      let ?w2 = "?w1\<lparr>files := AList.update p [] (files w)\<rparr>"
      have "map_of (files ?w2) p = Some []" by (simp add: update_conv)
      from write_chunks_result [OF this, of 0 chunks] obtain w3
        where w3: "write_chunks p 0 chunks ?w2 = (Inr (), w3)"
          "map_of (files w3) p = Some (concat chunks)" by auto
      show ?thesis
      proof (cases failure)
        case (Some m)
        then have "r = Inl (RequestException m)"
          using assms(1) Inr None HttpBody w3
          by (simp add: download_image_def monad_defs os_path_exists_def requests_get_def
              open_wb_def get_count_def)
        with assms(2) show ?thesis by auto
      next
        case ok: None
        have "r = verdict env image_conf target (files w3) \<and> files w' = files w3"
          using assms(1) Inr None HttpBody w3 ok
          by (auto simp: download_image_def monad_defs os_path_exists_def requests_get_def
              open_wb_def cli_json_file_md5sum_def verdict_def get_count_def
              split: sum.splits if_splits)
        then show ?thesis using Inr w3(2) by simp
      qed
    qed
  qed
qed

lemma download_image_absent:
  assumes "to_posix_path target = Inr p" and "map_of (files w) p = None"
    and "download_image env image_conf target w = (r, w')"
  shows "filter is_image_get (trace w') = filter is_image_get (trace w) @ [ImageGet (url image_conf)]"
proof -
  let ?w1 = "w\<lparr>trace := trace w @ [Log INFO (Downloading (url image_conf) target),
                                     ImageGet (url image_conf)]\<rparr>"
  show ?thesis
  proof (cases "http_reply env (get_count w) (url image_conf)")
    case (HttpError m)
    then have "w' = ?w1"
      using assms
      by (simp add: download_image_def monad_defs os_path_exists_def requests_get_def get_count_def)
    then show ?thesis by simp
  next
    case (HttpBody chunks failure)
    let ?w2 = "?w1\<lparr>files := AList.update p [] (files w)\<rparr>"
    have "map_of (files ?w2) p = Some []" by (simp add: update_conv)
    from write_chunks_result [OF this, of 0 chunks] obtain w3
      where w3: "write_chunks p 0 chunks ?w2 = (Inr (), w3)"
        "filter is_image_get (trace w3) = filter is_image_get (trace ?w2)" by auto
    show ?thesis
    proof (cases failure)
      case (Some m)
      then have "w' = w3"
        using assms HttpBody w3(1)
        by (simp add: download_image_def monad_defs os_path_exists_def requests_get_def
            open_wb_def get_count_def)
      then show ?thesis using w3(2) by simp
    next
      case None
      have "\<exists>evs. trace w' = trace w3 @ evs \<and> filter is_image_get evs = []"
        using assms HttpBody w3(1) None
        by (auto simp: download_image_def monad_defs os_path_exists_def requests_get_def
            open_wb_def cli_json_file_md5sum_def get_count_def split: sum.splits if_splits)
      then show ?thesis using w3(2) by auto
    qed
  qed
qed

lemma os_remove_present:
  assumes "map_of (files w) p \<noteq> None" and "os_remove env p w = (Inr u, w2)"
  shows "map_of (files w2) p = None \<and> trace w2 = trace w @ [OsRemove p]"
  using assms by (auto simp: os_remove_def delete_conv split: option.splits)

text \<open>
  Claim C6. When a file exists at the translated target path, \<open>download_image\<close> fetches
  nothing, leaves the files as they are, asks the device for the checksum and returns the
  outcome of the comparison, and a second call does the same with the same outcome. More
  generally, after any call that ended in a verdict (success or \<open>ChecksumError\<close>) the file is
  present, so that a second call fetches nothing, asks for the checksum again and ends in
  the same verdict.
\<close>

theorem download_image_idempotent:
  "(to_posix_path target = Inr p \<and> map_of (files w) p \<noteq> None \<longrightarrow>
      (\<exists>w' w''. download_image env image_conf target w
                  = (verdict env image_conf target (files w), w')
          \<and> download_image env image_conf target w'
                  = (verdict env image_conf target (files w), w'')
          \<and> files w' = files w \<and> files w'' = files w
          \<and> filter is_image_get (trace w') = filter is_image_get (trace w)
          \<and> filter is_image_get (trace w'') = filter is_image_get (trace w)
          \<and> Cli (''show file '' @ target @ '' md5sum'') \<in> set (drop (length (trace w)) (trace w'))
          \<and> Cli (''show file '' @ target @ '' md5sum'') \<in> set (drop (length (trace w')) (trace w''))))
   \<and> (download_image env image_conf target w = (r, w1)
        \<and> (r = Inr () \<or> (\<exists>m. r = Inl (ChecksumError m))) \<longrightarrow>
      (\<exists>w2. download_image env image_conf target w1 = (r, w2)
          \<and> files w2 = files w1
          \<and> filter is_image_get (trace w2) = filter is_image_get (trace w1)
          \<and> Cli (''show file '' @ target @ '' md5sum'') \<in> set (drop (length (trace w1)) (trace w2))))"
proof (intro conjI impI)
  assume a: "to_posix_path target = Inr p \<and> map_of (files w) p \<noteq> None"
  let ?v = "verdict env image_conf target (files w)"
  from download_image_present_summary [of target p w env image_conf] a
  obtain w' where 1: "download_image env image_conf target w = (?v, w')" "files w' = files w"
      "filter is_image_get (trace w') = filter is_image_get (trace w)"
      "Cli (''show file '' @ target @ '' md5sum'') \<in> set (drop (length (trace w)) (trace w'))"
    by blast
  from download_image_present_summary [of target p w' env image_conf] a 1(2)
  obtain w'' where 2: "download_image env image_conf target w' = (?v, w'')" "files w'' = files w'"
      "filter is_image_get (trace w'') = filter is_image_get (trace w')"
      "Cli (''show file '' @ target @ '' md5sum'') \<in> set (drop (length (trace w')) (trace w''))"
    by auto
  show "\<exists>w' w''. download_image env image_conf target w = (?v, w')
          \<and> download_image env image_conf target w' = (?v, w'')
          \<and> files w' = files w \<and> files w'' = files w
          \<and> filter is_image_get (trace w') = filter is_image_get (trace w)
          \<and> filter is_image_get (trace w'') = filter is_image_get (trace w)
          \<and> Cli (''show file '' @ target @ '' md5sum'') \<in> set (drop (length (trace w)) (trace w'))
          \<and> Cli (''show file '' @ target @ '' md5sum'') \<in> set (drop (length (trace w')) (trace w''))"
    using 1 2 by (intro exI [of _ w'] exI [of _ w'']) simp
next
  assume a: "download_image env image_conf target w = (r, w1)
        \<and> (r = Inr () \<or> (\<exists>m. r = Inl (ChecksumError m)))"
  from download_image_verdict_file [of env image_conf target w r w1] a
  obtain p where p: "to_posix_path target = Inr p" "map_of (files w1) p \<noteq> None"
      "r = verdict env image_conf target (files w1)" by blast
  from download_image_present_summary [OF p(1) p(2), of env image_conf] p(3)
  show "\<exists>w2. download_image env image_conf target w1 = (r, w2)
          \<and> files w2 = files w1
          \<and> filter is_image_get (trace w2) = filter is_image_get (trace w1)
          \<and> Cli (''show file '' @ target @ '' md5sum'') \<in> set (drop (length (trace w1)) (trace w2))"
    by simp
qed

theorem download_image_idempotent_witness:
  "to_posix_path ''bootflash:///nxos.bin'' = Inr ''/bootflash/nxos.bin''
   \<and> map_of (files \<lparr>files = fs_only_target, trace = []\<rparr>) ''/bootflash/nxos.bin'' \<noteq> None
   \<and> fst (download_image
             (example_env ''10.4(3)'' ''bootflash:///run.bin'' good_download device_ok)
             (bs_image example_bootstrap) ''bootflash:///nxos.bin''
             \<lparr>files = fs_only_target, trace = []\<rparr>)
       = Inl (ChecksumError
               ''MD5 checksum mismatch for bootflash:///nxos.bin. Expected good, got bad'')
   \<and> fst (download_image
             (example_env ''10.4(3)'' ''bootflash:///run.bin'' good_download device_ok)
             (bs_image example_bootstrap) ''bootflash:///nxos.bin''
             (snd (download_image
                     (example_env ''10.4(3)'' ''bootflash:///run.bin'' good_download device_ok)
                     (bs_image example_bootstrap) ''bootflash:///nxos.bin''
                     \<lparr>files = fs_only_target, trace = []\<rparr>)))
       = Inl (ChecksumError
               ''MD5 checksum mismatch for bootflash:///nxos.bin. Expected good, got bad'')
   \<and> filter is_image_get
         (trace (snd (download_image
             (example_env ''10.4(3)'' ''bootflash:///run.bin'' good_download device_ok)
             (bs_image example_bootstrap) ''bootflash:///nxos.bin''
             (snd (download_image
                     (example_env ''10.4(3)'' ''bootflash:///run.bin'' good_download device_ok)
                     (bs_image example_bootstrap) ''bootflash:///nxos.bin''
                     \<lparr>files = fs_only_target, trace = []\<rparr>)))))
       = []
   \<and> download_image (example_env ''10.4(3)'' ''bootflash:///run.bin'' good_download device_ok)
         (bs_image example_bootstrap) ''bootflash:///nxos.bin''
         \<lparr>files = fs_only_running, trace = []\<rparr>
       = (Inr (),
          \<lparr>files = [(''/bootflash/run.bin'', [7]), (''/bootflash/nxos.bin'', [1, 2, 3])],
           trace = [Log INFO (Downloading ''https://example.com/nxos.bin'' ''bootflash:///nxos.bin''),
                    ImageGet ''https://example.com/nxos.bin'',
                    Log INFO (Downloaded 2), Log INFO (Downloaded 3),
                    Cli ''show file bootflash:///nxos.bin md5sum'',
                    Log INFO (Md5Matches ''bootflash:///nxos.bin'')]\<rparr>)
   \<and> fst (download_image
             (example_env ''10.4(3)'' ''bootflash:///run.bin'' good_download device_ok)
             (bs_image example_bootstrap) ''bootflash:///nxos.bin''
             \<lparr>files = [(''/bootflash/run.bin'', [7]), (''/bootflash/nxos.bin'', [1, 2, 3])],
              trace = [Log INFO (Downloading ''https://example.com/nxos.bin'' ''bootflash:///nxos.bin''),
                       ImageGet ''https://example.com/nxos.bin'',
                       Log INFO (Downloaded 2), Log INFO (Downloaded 3),
                       Cli ''show file bootflash:///nxos.bin md5sum'',
                       Log INFO (Md5Matches ''bootflash:///nxos.bin'')]\<rparr>)
       = Inr ()
   \<and> filter is_image_get
         (trace (snd (download_image
             (example_env ''10.4(3)'' ''bootflash:///run.bin'' good_download device_ok)
             (bs_image example_bootstrap) ''bootflash:///nxos.bin''
             \<lparr>files = [(''/bootflash/run.bin'', [7]), (''/bootflash/nxos.bin'', [1, 2, 3])],
              trace = [Log INFO (Downloading ''https://example.com/nxos.bin'' ''bootflash:///nxos.bin''),
                       ImageGet ''https://example.com/nxos.bin'',
                       Log INFO (Downloaded 2), Log INFO (Downloaded 3),
                       Cli ''show file bootflash:///nxos.bin md5sum'',
                       Log INFO (Md5Matches ''bootflash:///nxos.bin'')]\<rparr>)))
       = [ImageGet ''https://example.com/nxos.bin'']"
proof -
  let ?E = "example_env ''10.4(3)'' ''bootflash:///run.bin'' good_download device_ok"
  let ?T = "''bootflash:///nxos.bin''"
  let ?M = "''MD5 checksum mismatch for bootflash:///nxos.bin. Expected good, got bad''"
  let ?W = "\<lparr>files = fs_only_target, trace = []\<rparr>"
  let ?Wabsent = "\<lparr>files = fs_only_running, trace = []\<rparr>"
  let ?Wfetched = "\<lparr>files = [(''/bootflash/run.bin'', [7]), (''/bootflash/nxos.bin'', [1, 2, 3])],
              trace = [Log INFO (Downloading ''https://example.com/nxos.bin'' ''bootflash:///nxos.bin''),
                       ImageGet ''https://example.com/nxos.bin'',
                       Log INFO (Downloaded 2), Log INFO (Downloaded 3),
                       Cli ''show file bootflash:///nxos.bin md5sum'',
                       Log INFO (Md5Matches ''bootflash:///nxos.bin'')]\<rparr>"
  have present: "map_of (files ?W) ''/bootflash/nxos.bin'' \<noteq> None"
    by (simp add: fs_only_target_def)
  have v: "verdict ?E (bs_image example_bootstrap) ?T (files ?W) = Inl (ChecksumError ?M)"
    by (simp add: verdict_def example_defs fs_only_target_def to_posix_nxos)
  have first: "download_image ?E (bs_image example_bootstrap) ?T ?Wabsent = (Inr (), ?Wfetched)"
    by (simp add: eval_simps update_conv)
  from download_image_idempotent [of ?T "''/bootflash/nxos.bin''" ?W ?E
        "bs_image example_bootstrap" "Inr ()" ?W] to_posix_nxos present v
  obtain w' w'' where a:
      "download_image ?E (bs_image example_bootstrap) ?T ?W = (Inl (ChecksumError ?M), w')"
      "download_image ?E (bs_image example_bootstrap) ?T w' = (Inl (ChecksumError ?M), w'')"
      "filter is_image_get (trace w'') = filter is_image_get (trace ?W)"
    by auto
  from download_image_idempotent [of ?T "''/bootflash/nxos.bin''" ?Wabsent ?E
        "bs_image example_bootstrap" "Inr ()" ?Wfetched] first
  obtain w2 where b:
      "download_image ?E (bs_image example_bootstrap) ?T ?Wfetched = (Inr (), w2)"
      "filter is_image_get (trace w2) = filter is_image_get (trace ?Wfetched)"
    by auto
  have a1: "fst (download_image ?E (bs_image example_bootstrap) ?T ?W) = Inl (ChecksumError ?M)"
    by (simp add: a(1))
  have a2: "fst (download_image ?E (bs_image example_bootstrap) ?T
                  (snd (download_image ?E (bs_image example_bootstrap) ?T ?W)))
            = Inl (ChecksumError ?M)"
    by (simp add: a(1) a(2))
  have a3: "filter is_image_get (trace (snd (download_image ?E (bs_image example_bootstrap) ?T
                  (snd (download_image ?E (bs_image example_bootstrap) ?T ?W))))) = []"
    using a(3) by (simp add: a(1) a(2))
  have b1: "fst (download_image ?E (bs_image example_bootstrap) ?T ?Wfetched) = Inr ()"
    by (simp add: b(1))
  have b2: "filter is_image_get
              (trace (snd (download_image ?E (bs_image example_bootstrap) ?T ?Wfetched)))
            = [ImageGet ''https://example.com/nxos.bin'']"
    using b(2) by (simp add: b(1))
  show ?thesis using to_posix_nxos present a1 a2 a3 first b1 b2 by blast
qed

section \<open>The retry after a checksum mismatch\<close>

text \<open>
  Claim C1 at a failing input. The device reports that it booted from
  \<open>bootflash:/nxos.bin\<close>, the descriptor's URL ends in \<open>nxos.bin\<close>, so that the target path
  is \<open>bootflash:///nxos.bin\<close>, and the checksum of the file on the flash differs from the
  expected one. Both paths translate to \<open>/bootflash/nxos.bin\<close>, but the guard of the retry
  compares the untranslated strings: the run removes \<open>/bootflash/nxos.bin\<close>, the image the
  device is running, and, the image server being unreachable, ends with code 1 and without
  that file.
\<close>

theorem retry_deletes_running_image:
  "to_posix_path ''bootflash:/nxos.bin'' = Inr ''/bootflash/nxos.bin''
   \<and> run (example_env ''10.4(3)'' ''bootflash:/nxos.bin'' no_download device_ok) fs_only_target
     = (1, \<lparr>files = [],
            trace =
              [Log INFO (FreeSpace 1000), Cli ''show version'', BootstrapGet ''SN1'',
               Log INFO (BootstrapData example_bootstrap),
               Cli ''show version'',
               Log INFO (BootedImage \<lparr>running_version = ''10.4(3)'',
                                      running_path = ''bootflash:/nxos.bin''\<rparr>),
               Log INFO (FoundBinFiles [''/bootflash/nxos.bin'']),
               Log INFO (SkippingTarget ''/bootflash/nxos.bin''),
               Log INFO (AlreadyExists ''bootflash:///nxos.bin''),
               Cli ''show file bootflash:///nxos.bin md5sum'',
               Log ERROR (Raised (ChecksumError
                 ''MD5 checksum mismatch for bootflash:///nxos.bin. Expected good, got bad'')),
               Log WARNING (DeletingTarget ''bootflash:///nxos.bin''),
               OsRemove ''/bootflash/nxos.bin'',
               Log INFO (Downloading ''https://example.com/nxos.bin'' ''bootflash:///nxos.bin''),
               ImageGet ''https://example.com/nxos.bin'',
               Log ERROR (Uncaught (RequestException ''connection refused''))]\<rparr>)"
  by (simp add: eval_simps)

text \<open>
  Claim C2, amended. Take a run that reaches the image block and whose first
  \<open>download_image\<close> raises \<open>ChecksumError\<close>. If the target path is the path string of the
  running image, nothing is deleted, no second attempt is made, the error is logged and the
  run goes on with the configuration. Otherwise the file is deleted (a failing deletion
  ends the block with that error) and \<open>download_image\<close> is called once more: the outcome of
  the block is the outcome of that second call, which issues exactly one image GET; if it
  verifies, the run goes on with the configuration; if it raises, \<open>main\<close> ends there with
  that exception, and for a second \<open>ChecksumError\<close> the process logs it and exits with
  code 1: there is no third attempt and no configuration.
\<close>

theorem checksum_retry_once:
  assumes "main_prepare env w0 = (Inr (bootstrap, running_image, target), w)"
    and "download_image env (bs_image bootstrap) target w = (Inl (ChecksumError msg), w1)"
  shows "(target = running_path running_image \<longrightarrow>
            main_image env bootstrap running_image target w
              = (Inr (), w1\<lparr>trace := trace w1 @ [Log ERROR (Raised (ChecksumError msg))]\<rparr>)
          \<and> main env w0
              = main_configuration env bootstrap running_image target
                  (w1\<lparr>trace := trace w1 @ [Log ERROR (Raised (ChecksumError msg))]\<rparr>))
       \<and> (target \<noteq> running_path running_image \<longrightarrow>
            (\<exists>p. to_posix_path target = Inr p
               \<and> (\<forall>e w2. os_remove env p
                            (w1\<lparr>trace := trace w1 @ [Log ERROR (Raised (ChecksumError msg)),
                                                      Log WARNING (DeletingTarget target)]\<rparr>)
                            = (Inl e, w2) \<longrightarrow>
                     main_image env bootstrap running_image target w = (Inl e, w2))
               \<and> (\<forall>w2 r3 w3.
                     os_remove env p
                       (w1\<lparr>trace := trace w1 @ [Log ERROR (Raised (ChecksumError msg)),
                                                 Log WARNING (DeletingTarget target)]\<rparr>)
                       = (Inr (), w2)
                     \<and> download_image env (bs_image bootstrap) target w2 = (r3, w3) \<longrightarrow>
                       main_image env bootstrap running_image target w = (r3, w3)
                     \<and> filter is_image_get (trace w3)
                         = filter is_image_get (trace w2) @ [ImageGet (url (bs_image bootstrap))]
                     \<and> (r3 = Inr () \<longrightarrow>
                          main env w0 = main_configuration env bootstrap running_image target w3)
                     \<and> (\<forall>e. r3 = Inl e \<longrightarrow> main env w0 = (Inl e, w3))
                     \<and> (\<forall>m2. r3 = Inl (ChecksumError m2) \<longrightarrow>
                          script env w0
                            = (1, w3\<lparr>trace := trace w3
                                        @ [Log ERROR (Uncaught (ChecksumError m2))]\<rparr>)))))"
proof (intro conjI impI)
  assume eq: "target = running_path running_image"
  show "main_image env bootstrap running_image target w
              = (Inr (), w1\<lparr>trace := trace w1 @ [Log ERROR (Raised (ChecksumError msg))]\<rparr>)"
    using assms(2) eq by (simp add: main_image_def monad_defs)
  then show "main env w0
              = main_configuration env bootstrap running_image target
                  (w1\<lparr>trace := trace w1 @ [Log ERROR (Raised (ChecksumError msg))]\<rparr>)"
    using assms(1) by (simp add: main_blocks and_then_def)
next
  assume ne: "target \<noteq> running_path running_image"
  let ?wd = "w1\<lparr>trace := trace w1 @ [Log ERROR (Raised (ChecksumError msg)),
                                      Log WARNING (DeletingTarget target)]\<rparr>"
  from download_image_verdict_file [OF assms(2)]
  obtain p where p: "to_posix_path target = Inr p" "map_of (files w1) p \<noteq> None" by auto
  have stage: "main_image env bootstrap running_image target w
        = (case os_remove env p ?wd of
             (Inl e, w2) \<Rightarrow> (Inl e, w2)
           | (Inr u, w2) \<Rightarrow> download_image env (bs_image bootstrap) target w2)"
    using assms(2) ne p(1) by (simp add: main_image_def monad_defs)
  have run: "main env w0
        = (case main_image env bootstrap running_image target w of
             (Inl e, w3) \<Rightarrow> (Inl e, w3)
           | (Inr u, w3) \<Rightarrow> main_configuration env bootstrap running_image target w3)"
    using assms(1) by (simp add: main_blocks and_then_def)
  have fail: "main_image env bootstrap running_image target w = (Inl e, w2)"
    if "os_remove env p ?wd = (Inl e, w2)" for e w2
    using that stage by simp
  have retry: "main_image env bootstrap running_image target w = (r3, w3)
      \<and> filter is_image_get (trace w3)
          = filter is_image_get (trace w2) @ [ImageGet (url (bs_image bootstrap))]
      \<and> (r3 = Inr () \<longrightarrow>
            main env w0 = main_configuration env bootstrap running_image target w3)
      \<and> (\<forall>e. r3 = Inl e \<longrightarrow> main env w0 = (Inl e, w3))
      \<and> (\<forall>m2. r3 = Inl (ChecksumError m2) \<longrightarrow>
            script env w0
              = (1, w3\<lparr>trace := trace w3 @ [Log ERROR (Uncaught (ChecksumError m2))]\<rparr>))"
    if "os_remove env p ?wd = (Inr (), w2) \<and> download_image env (bs_image bootstrap) target w2 = (r3, w3)"
    for w2 r3 w3
  proof -
    have st: "main_image env bootstrap running_image target w = (r3, w3)"
      using that stage by simp
    have "map_of (files ?wd) p \<noteq> None" using p(2) by simp
    from os_remove_present [OF this] that have "map_of (files w2) p = None" by blast
    from download_image_absent [OF p(1) this] that
    have gets: "filter is_image_get (trace w3)
          = filter is_image_get (trace w2) @ [ImageGet (url (bs_image bootstrap))]" by blast
    have ok: "main env w0 = main_configuration env bootstrap running_image target w3"
      if "r3 = Inr ()" using that run st by simp
    have err: "main env w0 = (Inl e, w3)" if "r3 = Inl e" for e
      using that run st by simp
    have "script env w0
              = (1, w3\<lparr>trace := trace w3 @ [Log ERROR (Uncaught (ChecksumError m2))]\<rparr>)"
      if "r3 = Inl (ChecksumError m2)" for m2
      using err [OF that] by (simp add: script_def)
    then show ?thesis using st gets ok err by blast
  qed
  show "\<exists>p. to_posix_path target = Inr p
               \<and> (\<forall>e w2. os_remove env p ?wd = (Inl e, w2) \<longrightarrow>
                     main_image env bootstrap running_image target w = (Inl e, w2))
               \<and> (\<forall>w2 r3 w3.
                     os_remove env p ?wd = (Inr (), w2)
                     \<and> download_image env (bs_image bootstrap) target w2 = (r3, w3) \<longrightarrow>
                       main_image env bootstrap running_image target w = (r3, w3)
                     \<and> filter is_image_get (trace w3)
                         = filter is_image_get (trace w2) @ [ImageGet (url (bs_image bootstrap))]
                     \<and> (r3 = Inr () \<longrightarrow>
                          main env w0 = main_configuration env bootstrap running_image target w3)
                     \<and> (\<forall>e. r3 = Inl e \<longrightarrow> main env w0 = (Inl e, w3))
                     \<and> (\<forall>m2. r3 = Inl (ChecksumError m2) \<longrightarrow>
                          script env w0
                            = (1, w3\<lparr>trace := trace w3
                                        @ [Log ERROR (Uncaught (ChecksumError m2))]\<rparr>)))"
    using p(1) fail retry by (intro exI [of _ p]) blast
qed

theorem checksum_retry_once_witness:
  "main_prepare (example_env ''10.4(3)'' ''bootflash:///run.bin'' corrupt_download device_ok)
       \<lparr>files = fs_corrupt_target, trace = []\<rparr>
     = (Inr (example_bootstrap,
             \<lparr>running_version = ''10.4(3)'', running_path = ''bootflash:///run.bin''\<rparr>,
             ''bootflash:///nxos.bin''),
        \<lparr>files = fs_corrupt_target,
         trace = [Log INFO (FreeSpace 1000), Cli ''show version'', BootstrapGet ''SN1'',
                  Log INFO (BootstrapData example_bootstrap), Cli ''show version'',
                  Log INFO (BootedImage \<lparr>running_version = ''10.4(3)'',
                                         running_path = ''bootflash:///run.bin''\<rparr>),
                  Log INFO (FoundBinFiles [''/bootflash/nxos.bin'', ''/bootflash/run.bin'']),
                  Log INFO (SkippingTarget ''/bootflash/nxos.bin''),
                  Log INFO (SkippingRunning ''/bootflash/run.bin'')]\<rparr>)
   \<and> download_image (example_env ''10.4(3)'' ''bootflash:///run.bin'' corrupt_download device_ok)
         (bs_image example_bootstrap) ''bootflash:///nxos.bin''
         \<lparr>files = fs_corrupt_target,
          trace = [Log INFO (FreeSpace 1000), Cli ''show version'', BootstrapGet ''SN1'',
                   Log INFO (BootstrapData example_bootstrap), Cli ''show version'',
                   Log INFO (BootedImage \<lparr>running_version = ''10.4(3)'',
                                          running_path = ''bootflash:///run.bin''\<rparr>),
                   Log INFO (FoundBinFiles [''/bootflash/nxos.bin'', ''/bootflash/run.bin'']),
                   Log INFO (SkippingTarget ''/bootflash/nxos.bin''),
                   Log INFO (SkippingRunning ''/bootflash/run.bin'')]\<rparr>
     = (Inl (ChecksumError
              ''MD5 checksum mismatch for bootflash:///nxos.bin. Expected good, got bad''),
        \<lparr>files = fs_corrupt_target,
         trace = [Log INFO (FreeSpace 1000), Cli ''show version'', BootstrapGet ''SN1'',
                  Log INFO (BootstrapData example_bootstrap), Cli ''show version'',
                  Log INFO (BootedImage \<lparr>running_version = ''10.4(3)'',
                                         running_path = ''bootflash:///run.bin''\<rparr>),
                  Log INFO (FoundBinFiles [''/bootflash/nxos.bin'', ''/bootflash/run.bin'']),
                  Log INFO (SkippingTarget ''/bootflash/nxos.bin''),
                  Log INFO (SkippingRunning ''/bootflash/run.bin''),
                  Log INFO (AlreadyExists ''bootflash:///nxos.bin''),
                  Cli ''show file bootflash:///nxos.bin md5sum'']\<rparr>)
   \<and> script (example_env ''10.4(3)'' ''bootflash:///run.bin'' corrupt_download device_ok)
         \<lparr>files = fs_corrupt_target, trace = []\<rparr>
     = (1, \<lparr>files = [(''/bootflash/run.bin'', [7]), (''/bootflash/nxos.bin'', [1, 2, 4])],
            trace = [Log INFO (FreeSpace 1000), Cli ''show version'', BootstrapGet ''SN1'',
                     Log INFO (BootstrapData example_bootstrap), Cli ''show version'',
                     Log INFO (BootedImage \<lparr>running_version = ''10.4(3)'',
                                            running_path = ''bootflash:///run.bin''\<rparr>),
                     Log INFO (FoundBinFiles [''/bootflash/nxos.bin'', ''/bootflash/run.bin'']),
                     Log INFO (SkippingTarget ''/bootflash/nxos.bin''),
                     Log INFO (SkippingRunning ''/bootflash/run.bin''),
                     Log INFO (AlreadyExists ''bootflash:///nxos.bin''),
                     Cli ''show file bootflash:///nxos.bin md5sum'',
                     Log ERROR (Raised (ChecksumError
                       ''MD5 checksum mismatch for bootflash:///nxos.bin. Expected good, got bad'')),
                     Log WARNING (DeletingTarget ''bootflash:///nxos.bin''),
                     OsRemove ''/bootflash/nxos.bin'',
                     Log INFO (Downloading ''https://example.com/nxos.bin''
                                 ''bootflash:///nxos.bin''),
                     ImageGet ''https://example.com/nxos.bin'',
                     Log INFO (Downloaded 2), Log INFO (Downloaded 3),
                     Cli ''show file bootflash:///nxos.bin md5sum'',
                     Log ERROR (Uncaught (ChecksumError
                       ''MD5 checksum mismatch for bootflash:///nxos.bin. Expected good, got bad''))]\<rparr>)"
proof -
  let ?E = "example_env ''10.4(3)'' ''bootflash:///run.bin'' corrupt_download device_ok"
  let ?R = "\<lparr>running_version = ''10.4(3)'', running_path = ''bootflash:///run.bin''\<rparr>"
  let ?T = "''bootflash:///nxos.bin''"
  let ?M = "''MD5 checksum mismatch for bootflash:///nxos.bin. Expected good, got bad''"
  let ?pre = "[Log INFO (FreeSpace 1000), Cli ''show version'', BootstrapGet ''SN1'',
               Log INFO (BootstrapData example_bootstrap), Cli ''show version'',
               Log INFO (BootedImage ?R),
               Log INFO (FoundBinFiles [''/bootflash/nxos.bin'', ''/bootflash/run.bin'']),
               Log INFO (SkippingTarget ''/bootflash/nxos.bin''),
               Log INFO (SkippingRunning ''/bootflash/run.bin'')]"
  let ?Wa = "\<lparr>files = fs_corrupt_target, trace = []\<rparr>"
  let ?Wb = "\<lparr>files = fs_corrupt_target, trace = ?pre\<rparr>"
  let ?Wc = "\<lparr>files = fs_corrupt_target,
              trace = ?pre @ [Log INFO (AlreadyExists ?T), Cli ''show file bootflash:///nxos.bin md5sum'']\<rparr>"
  let ?Wd = "?Wc\<lparr>trace := trace ?Wc @ [Log ERROR (Raised (ChecksumError ?M)),
                                        Log WARNING (DeletingTarget ?T)]\<rparr>"
  let ?We = "\<lparr>files = [(''/bootflash/run.bin'', [7])],
              trace = trace ?Wd @ [OsRemove ''/bootflash/nxos.bin'']\<rparr>"
  let ?Wf = "\<lparr>files = [(''/bootflash/run.bin'', [7]), (''/bootflash/nxos.bin'', [1, 2, 4])],
              trace = trace ?We @ [Log INFO (Downloading ''https://example.com/nxos.bin'' ?T),
                     ImageGet ''https://example.com/nxos.bin'',
                     Log INFO (Downloaded 2), Log INFO (Downloaded 3),
                     Cli ''show file bootflash:///nxos.bin md5sum'']\<rparr>"
  have prep: "main_prepare ?E ?Wa = (Inr (example_bootstrap, ?R, ?T), ?Wb)"
    by (simp add: eval_simps)
  have first: "download_image ?E (bs_image example_bootstrap) ?T ?Wb = (Inl (ChecksumError ?M), ?Wc)"
    by (simp add: eval_simps)
  have rm: "os_remove ?E ''/bootflash/nxos.bin'' ?Wd = (Inr (), ?We)"
    by (simp add: eval_simps)
  have second: "download_image ?E (bs_image example_bootstrap) ?T ?We = (Inl (ChecksumError ?M), ?Wf)"
    by (simp add: eval_simps update_conv)
  have ne: "?T \<noteq> running_path ?R" by simp
  from checksum_retry_once [OF prep first] ne to_posix_nxos rm second
  have "script ?E ?Wa = (1, ?Wf\<lparr>trace := trace ?Wf @ [Log ERROR (Uncaught (ChecksumError ?M))]\<rparr>)"
    by auto
  then show ?thesis using prep first by simp
qed

text \<open>
  Claim C2 as stated fails: the target file is the running image and its checksum does not
  match; the error is logged, no second attempt is made, and the run sets the boot
  variable, applies the configuration, reloads and ends with code 0, although no
  verification succeeded.
\<close>

theorem checksum_mismatch_counterexample:
  "run (example_env ''10.4(3)'' ''bootflash:///nxos.bin'' no_download device_ok) fs_only_target
     = (0, \<lparr>files = [(''/bootflash/nxos.bin'', [9, 9])],
            trace =
              [Log INFO (FreeSpace 1000), Cli ''show version'', BootstrapGet ''SN1'',
               Log INFO (BootstrapData example_bootstrap), Cli ''show version'',
               Log INFO (BootedImage \<lparr>running_version = ''10.4(3)'',
                                      running_path = ''bootflash:///nxos.bin''\<rparr>),
               Log INFO (FoundBinFiles [''/bootflash/nxos.bin'']),
               Log INFO (SkippingTarget ''/bootflash/nxos.bin''),
               Log INFO (AlreadyExists ''bootflash:///nxos.bin''),
               Cli ''show file bootflash:///nxos.bin md5sum'',
               Log ERROR (Raised (ChecksumError
                 ''MD5 checksum mismatch for bootflash:///nxos.bin. Expected good, got bad'')),
               Log INFO (SettingBootImage ''bootflash:///nxos.bin''),
               Cli ''configure terminal ; boot nxos bootflash:///nxos.bin ; end'',
               Log INFO CopyingConfig,
               Cli ''copy running-config startup-config'', Cli ''show boot'',
               Log INFO (StartupImageSet ''bootflash:///nxos.bin''),
               Log INFO ConfiguringDevice,
               Cli ''configure terminal ; hostname sw1 ; feature nxapi ; end'',
               Cli ''copy running-config startup-config'',
               Log INFO CopiedConfig, Cli ''show startup-config'',
               Log INFO (StartupConfiguration ''ok''), Log INFO Completed,
               Cli ''terminal dont-ask ; reload'']\<rparr>)"
  by (simp add: eval_simps)

section \<open>The boot configuration decision\<close>



text \<open>
  Claim C4, amended. In every run the reconciliation decision is taken at most once, and
  nothing is fetched after it: the test follows the image block, hence every download. It
  is taken exactly once in a run that gets past the image block, and never in a run that
  ends before. What it decides is \<open>decision_msg\<close>, a function of the descriptor, the running
  image and the target path alone: no file is read.
\<close>

theorem boot_decision_after_image_block:
  "decided_after_downloads (trace (snd (run env fs)))
   \<and> length (filter is_decision (trace (snd (run env fs)))) \<le> 1
   \<and> (main_prepare env \<lparr>files = fs, trace = []\<rparr> = (Inr (b, r, t), w1)
        \<and> main_image env b r t w1 = (Inr (), w2) \<longrightarrow>
          filter is_decision (trace (snd (run env fs))) = [Log INFO (decision_msg b r t)])
   \<and> ((\<forall>b r t w1 w2. main_prepare env \<lparr>files = fs, trace = []\<rparr> = (Inr (b, r, t), w1) \<longrightarrow>
           main_image env b r t w1 \<noteq> (Inr (), w2)) \<longrightarrow>
          filter is_decision (trace (snd (run env fs))) = [])"
proof -
  let ?w0 = "\<lparr>files = fs, trace = []\<rparr>"
  obtain res w' where m: "main env ?w0 = (res, w')" by (cases "main env ?w0")
  from script_trace [of env ?w0] m obtain extra
    where x: "trace (snd (run env fs)) = trace w' @ extra" "list_all quiet extra"
    by (auto simp: run_def)
  from main_trace [OF m] consider
    (never) early where "trace w' = early" "list_all (\<lambda>e. \<not> is_decision e) early"
      "\<forall>b r t w1 w2. main_prepare env ?w0 = (Inr (b, r, t), w1) \<longrightarrow>
                   main_image env b r t w1 \<noteq> (Inr (), w2)"
  | (once) b' r' t' w1' w2' early later where
      "main_prepare env ?w0 = (Inr (b', r', t'), w1')" "main_image env b' r' t' w1' = (Inr (), w2')"
      "trace w' = early @ Log INFO (decision_msg b' r' t') # later"
      "list_all (\<lambda>e. \<not> is_decision e) early" "list_all quiet later"
    by auto
  then show ?thesis
  proof cases
    case never
    have nd: "list_all (\<lambda>e. \<not> is_decision e) (early @ extra)"
      using never(2) x(2) quiet_no_decision by simp
    have f: "filter is_decision (trace (snd (run env fs))) = []"
      using x(1) never(1) no_decision_filter [OF nd] by simp
    have dw: "dropWhile (\<lambda>e. \<not> is_decision e) (trace (snd (run env fs))) = []"
      using x(1) never(1) no_decision_dropWhile [OF nd, of "[]"] by simp
    have d: "decided_after_downloads (trace (snd (run env fs)))"
      unfolding decided_after_downloads_def dw by simp
    have c3: "main_prepare env ?w0 = (Inr (b, r, t), w1)
        \<and> main_image env b r t w1 = (Inr (), w2) \<longrightarrow>
          filter is_decision (trace (snd (run env fs))) = [Log INFO (decision_msg b r t)]"
      using never(3) by blast
    have c2: "length (filter is_decision (trace (snd (run env fs)))) \<le> 1"
      by (simp add: f)
    show ?thesis using d c2 c3 f by blast
  next
    case once
    let ?d = "Log INFO (decision_msg b' r' t')"
    have tr: "trace (snd (run env fs)) = early @ ?d # (later @ extra)"
      using x(1) once(3) by simp
    have q: "list_all quiet (later @ extra)" using once(5) x(2) by simp
    have dw: "dropWhile (\<lambda>e. \<not> is_decision e) (trace (snd (run env fs))) = ?d # (later @ extra)"
      unfolding tr using no_decision_dropWhile [OF once(4)] by simp
    have d: "decided_after_downloads (trace (snd (run env fs)))"
      unfolding decided_after_downloads_def dw using quiet_list [OF q] by simp
    have f: "filter is_decision (trace (snd (run env fs))) = [?d]"
      unfolding tr
      using no_decision_filter [OF once(4)] no_decision_filter [OF quiet_no_decision [OF q]]
      by simp
    have same: "b = b' \<and> r = r' \<and> t = t'"
      if "main_prepare env ?w0 = (Inr (b, r, t), w1)"
      using that once(1) by simp
    have c3: "main_prepare env ?w0 = (Inr (b, r, t), w1)
        \<and> main_image env b r t w1 = (Inr (), w2) \<longrightarrow>
          filter is_decision (trace (snd (run env fs))) = [Log INFO (decision_msg b r t)]"
      using same f by blast
    have c2: "length (filter is_decision (trace (snd (run env fs)))) \<le> 1"
      by (simp add: f)
    have c4: "(\<forall>b r t w1 w2. main_prepare env ?w0 = (Inr (b, r, t), w1) \<longrightarrow>
           main_image env b r t w1 \<noteq> (Inr (), w2)) \<longrightarrow>
          filter is_decision (trace (snd (run env fs))) = []"
      using once(1,2) by blast
    show ?thesis using d c2 c3 c4 by blast
  qed
qed

theorem boot_decision_after_image_block_witness:
  "fst (main_prepare (example_env ''10.4(3)'' ''bootflash:///run.bin'' good_download device_ok)
          \<lparr>files = fs_only_running, trace = []\<rparr>)
     = Inr (example_bootstrap,
            \<lparr>running_version = ''10.4(3)'', running_path = ''bootflash:///run.bin''\<rparr>,
            ''bootflash:///nxos.bin'')
   \<and> fst (main_image (example_env ''10.4(3)'' ''bootflash:///run.bin'' good_download device_ok)
          example_bootstrap
          \<lparr>running_version = ''10.4(3)'', running_path = ''bootflash:///run.bin''\<rparr>
          ''bootflash:///nxos.bin''
          (snd (main_prepare
                  (example_env ''10.4(3)'' ''bootflash:///run.bin'' good_download device_ok)
                  \<lparr>files = fs_only_running, trace = []\<rparr>)))
     = Inr ()
   \<and> decided_after_downloads
       (trace (snd (run (example_env ''10.4(3)'' ''bootflash:///run.bin'' good_download device_ok)
                      fs_only_running)))
   \<and> filter is_decision
       (trace (snd (run (example_env ''10.4(3)'' ''bootflash:///run.bin'' good_download device_ok)
                      fs_only_running)))
     = [Log INFO (SettingBootImage ''bootflash:///nxos.bin'')]"
proof -
  let ?E = "example_env ''10.4(3)'' ''bootflash:///run.bin'' good_download device_ok"
  let ?R = "\<lparr>running_version = ''10.4(3)'', running_path = ''bootflash:///run.bin''\<rparr>"
  let ?T = "''bootflash:///nxos.bin''"
  let ?Wa = "\<lparr>files = fs_only_running, trace = []\<rparr>"
  have p: "fst (main_prepare ?E ?Wa) = Inr (example_bootstrap, ?R, ?T)"
    by (simp add: eval_simps)
  have i: "fst (main_image ?E example_bootstrap ?R ?T (snd (main_prepare ?E ?Wa))) = Inr ()"
    by (simp add: eval_simps update_conv)
  have hp: "main_prepare ?E ?Wa = (Inr (example_bootstrap, ?R, ?T), snd (main_prepare ?E ?Wa))"
    using p by (simp add: prod_eq_iff)
  have hi: "main_image ?E example_bootstrap ?R ?T (snd (main_prepare ?E ?Wa))
      = (Inr (), snd (main_image ?E example_bootstrap ?R ?T (snd (main_prepare ?E ?Wa))))"
    using i by (simp add: prod_eq_iff)
  have d: "decision_msg example_bootstrap ?R ?T = SettingBootImage ?T"
    by (simp add: decision_msg_def)
  from boot_decision_after_image_block [of ?E fs_only_running example_bootstrap ?R ?T
      "snd (main_prepare ?E ?Wa)"
      "snd (main_image ?E example_bootstrap ?R ?T (snd (main_prepare ?E ?Wa)))"] hp hi d
  have "decided_after_downloads (trace (snd (run ?E fs_only_running)))
      \<and> filter is_decision (trace (snd (run ?E fs_only_running)))
          = [Log INFO (SettingBootImage ?T)]"
    by simp
  then show ?thesis using p i by blast
qed

text \<open>
  Claim C4 as stated fails: the target file is absent, and the run fetches the image
  before it takes the decision.
\<close>

theorem decision_before_download_counterexample:
  "run (example_env ''10.4(3)'' ''bootflash:///run.bin'' good_download device_ok) fs_only_running
     = (0, \<lparr>files = [(''/bootflash/run.bin'', [7]), (''/bootflash/nxos.bin'', [1, 2, 3])],
            trace =
              [Log INFO (FreeSpace 1000), Cli ''show version'', BootstrapGet ''SN1'',
               Log INFO (BootstrapData example_bootstrap), Cli ''show version'',
               Log INFO (BootedImage \<lparr>running_version = ''10.4(3)'',
                                      running_path = ''bootflash:///run.bin''\<rparr>),
               Log INFO (FoundBinFiles [''/bootflash/run.bin'']),
               Log INFO (SkippingRunning ''/bootflash/run.bin''),
               Log INFO (Downloading ''https://example.com/nxos.bin'' ''bootflash:///nxos.bin''),
               ImageGet ''https://example.com/nxos.bin'',
               Log INFO (Downloaded 2), Log INFO (Downloaded 3),
               Cli ''show file bootflash:///nxos.bin md5sum'',
               Log INFO (Md5Matches ''bootflash:///nxos.bin''),
               Log INFO (SettingBootImage ''bootflash:///nxos.bin''),
               Cli ''configure terminal ; boot nxos bootflash:///nxos.bin ; end'',
               Log INFO CopyingConfig,
               Cli ''copy running-config startup-config'', Cli ''show boot'',
               Log INFO (StartupImageSet ''bootflash:///nxos.bin''),
               Log INFO ConfiguringDevice,
               Cli ''configure terminal ; hostname sw1 ; feature nxapi ; end'',
               Cli ''copy running-config startup-config'',
               Log INFO CopiedConfig, Cli ''show startup-config'',
               Log INFO (StartupConfiguration ''ok''), Log INFO Completed,
               Cli ''terminal dont-ask ; reload'']\<rparr>)
   \<and> \<not> decided_once_before_downloads
         (trace (snd (run (example_env ''10.4(3)'' ''bootflash:///run.bin'' good_download
                             device_ok) fs_only_running)))"
proof -
  let ?E = "example_env ''10.4(3)'' ''bootflash:///run.bin'' good_download device_ok"
  have r: "run ?E fs_only_running
     = (0, \<lparr>files = [(''/bootflash/run.bin'', [7]), (''/bootflash/nxos.bin'', [1, 2, 3])],
            trace =
              [Log INFO (FreeSpace 1000), Cli ''show version'', BootstrapGet ''SN1'',
               Log INFO (BootstrapData example_bootstrap), Cli ''show version'',
               Log INFO (BootedImage \<lparr>running_version = ''10.4(3)'',
                                      running_path = ''bootflash:///run.bin''\<rparr>),
               Log INFO (FoundBinFiles [''/bootflash/run.bin'']),
               Log INFO (SkippingRunning ''/bootflash/run.bin''),
               Log INFO (Downloading ''https://example.com/nxos.bin'' ''bootflash:///nxos.bin''),
               ImageGet ''https://example.com/nxos.bin'',
               Log INFO (Downloaded 2), Log INFO (Downloaded 3),
               Cli ''show file bootflash:///nxos.bin md5sum'',
               Log INFO (Md5Matches ''bootflash:///nxos.bin''),
               Log INFO (SettingBootImage ''bootflash:///nxos.bin''),
               Cli ''configure terminal ; boot nxos bootflash:///nxos.bin ; end'',
               Log INFO CopyingConfig,
               Cli ''copy running-config startup-config'', Cli ''show boot'',
               Log INFO (StartupImageSet ''bootflash:///nxos.bin''),
               Log INFO ConfiguringDevice,
               Cli ''configure terminal ; hostname sw1 ; feature nxapi ; end'',
               Cli ''copy running-config startup-config'',
               Log INFO CopiedConfig, Cli ''show startup-config'',
               Log INFO (StartupConfiguration ''ok''), Log INFO Completed,
               Cli ''terminal dont-ask ; reload'']\<rparr>)"
    by (simp add: eval_simps update_conv)
  have "\<not> decided_once_before_downloads (trace (snd (run ?E fs_only_running)))"
    unfolding r by (simp add: decided_once_before_downloads_def)
  then show ?thesis using r by blast
qed

section \<open>Saving and showing the startup configuration\<close>




end
